theory Spec2Isabelle
  imports Complex_Main
begin

section \<open>Motion Wave: gesture-to-control mapping, harmonization session, voice engine\<close>

text \<open>
  A shallow embedding of the control core of the application: the gesture tracker
  component \<^verbatim>\<open>HandGestureTracker\<close> (the copy the page mounts, and a second copy that takes
  no props), the hook
  \<^verbatim>\<open>useHarmonizer\<close> and the class \<^verbatim>\<open>VocalAudioEngine\<close>.

  JavaScript numbers are IEEE 754 double-precision values. A finite one is modelled by
  the \<^typ>\<open>real\<close> it denotes, and the arithmetic of the pitch path (the subtraction in
  \<^verbatim>\<open>getPitchFromY\<close>, the product in \<^verbatim>\<open>pitchToMidi\<close>) rounds its exact result to the nearest
  double, ties to even, as the machine does. NaN is not modelled. Audio-clock times and
  gain values are handed to the browser as they are. MIDI note numbers are \<^typ>\<open>int\<close>. A
  JavaScript \<^verbatim>\<open>undefined\<close> or \<^verbatim>\<open>null\<close> is \<^const>\<open>None\<close>.
\<close>

subsection \<open>Double-precision rounding\<close>

text \<open>Rounding to the nearest integer, a tie going to the even neighbour.\<close>

definition round_half_even :: "real \<Rightarrow> int" where
  "round_half_even q =
     (let f = \<lfloor>q\<rfloor>; d = q - real_of_int f
      in if d < 1 / 2 then f
         else if 1 / 2 < d then f + 1
         else if even f then f else f + 1)"

text \<open>
  The exponent of the doubles around \<open>v\<close>: \<open>\<lfloor>log\<^sub>2 |v|\<rfloor>\<close>, and \<open>-1022\<close> throughout the
  subnormal range. Neighbouring doubles there are one \<open>ulp\<close> apart (53 significant bits).
\<close>

definition binade :: "real \<Rightarrow> int" where
  "binade v = max \<lfloor>log 2 \<bar>v\<bar>\<rfloor> (- 1022)"

definition ulp :: "real \<Rightarrow> real" where
  "ulp v = 2 powr (real_of_int (binade v) - 52)"

text \<open>The nearest double of a real, with an exponent range unbounded above.\<close>

definition round64 :: "real \<Rightarrow> real" where
  "round64 v = (if v = 0 then 0 else real_of_int (round_half_even (v / ulp v)) * ulp v)"

text \<open>
  The double that an arithmetic operation with exact result \<open>v\<close> returns; \<^const>\<open>None\<close>
  when it overflows to an infinity (of the sign of \<open>v\<close>).
\<close>

definition round_binary64 :: "real \<Rightarrow> real option" where
  "round_binary64 v = (let r = round64 v in if \<bar>r\<bar> < 2 ^ 1024 then Some r else None)"

subsection \<open>Pitch quantisation (\<^verbatim>\<open>getPitchFromY\<close>, \<^verbatim>\<open>getVolumeFromY\<close>, \<^verbatim>\<open>pitchToMidi\<close>)\<close>

text \<open>
  \<^verbatim>\<open>Math.max(0, Math.min(1, 1 - y))\<close>. The difference is a double; if it overflows, the
  clamp takes \<open>-\<infinity>\<close> to 0 and \<open>+\<infinity>\<close> to 1.
\<close>

definition getPitchFromY :: "real \<Rightarrow> real" where
  "getPitchFromY y =
     (case round_binary64 (1 - y) of
        Some difference \<Rightarrow> max 0 (min 1 difference)
      | None \<Rightarrow> if 1 - y < 0 then 0 else 1)"

definition getVolumeFromY :: "real \<Rightarrow> real" where
  "getVolumeFromY y =
     (case round_binary64 (1 - y) of
        Some difference \<Rightarrow> max 0 (min 1 difference)
      | None \<Rightarrow> if 1 - y < 0 then 0 else 1)"

text \<open>Semitone offsets from C of the white keys C, D, E, F, G, A, B.\<close>

definition whiteKeyPattern :: "int list" where
  "whiteKeyPattern = [0, 2, 4, 5, 7, 9, 11]"

text \<open>
  The inner loop \<^verbatim>\<open>for (noteIdx = startIdx; noteIdx <= endIdx; noteIdx++)\<close>, pushing
  \<^verbatim>\<open>(octave + 1) * 12 + whiteKeyPattern[noteIdx]\<close> onto the array built so far.
\<close>

function note_loop :: "int \<Rightarrow> nat \<Rightarrow> nat \<Rightarrow> int list \<Rightarrow> int list" where
  "note_loop octave noteIdx endIdx keys =
     (if noteIdx \<le> endIdx
      then note_loop octave (Suc noteIdx) endIdx
             (keys @ [(octave + 1) * 12 + whiteKeyPattern ! noteIdx])
      else keys)"
  by pat_completeness auto
termination
  by (relation "measure (\<lambda>(octave, noteIdx, endIdx, keys). Suc endIdx - noteIdx)") auto

text \<open>
  The outer loop \<^verbatim>\<open>for (octave = 4; octave <= 5; octave++)\<close>: both octaves start at C;
  octave 5 ends at E (index 2), octave 4 at B (index 6).
\<close>

function octave_loop :: "int \<Rightarrow> int list \<Rightarrow> int list" where
  "octave_loop octave keys =
     (if octave \<le> 5
      then (let startIdx = (if octave = 4 then 0 else 0);
                endIdx = (if octave = 5 then 2 else 6)
            in octave_loop (octave + 1) (note_loop octave startIdx endIdx keys))
      else keys)"
  by pat_completeness auto
termination
  by (relation "measure (\<lambda>(octave, keys). nat (6 - octave))") auto

definition whiteKeys :: "int list" where
  "whiteKeys = octave_loop 4 []"

text \<open>
  \<^verbatim>\<open>keyIndex = Math.floor(pitch * (whiteKeys.length - 1)); return whiteKeys[keyIndex]\<close>.
  The product is a double: the exact product rounded. The floor of a double is exact.
  Reading a JavaScript array outside its bounds, or at an infinite index, yields
  \<^verbatim>\<open>undefined\<close>, here \<^const>\<open>None\<close>; the source applies no clamp to the index.
\<close>

definition pitchToMidi :: "real \<Rightarrow> int option" where
  "pitchToMidi pitch =
     (case round_binary64 (pitch * real (length whiteKeys - 1)) of
        None \<Rightarrow> None
      | Some product \<Rightarrow>
          (let keyIndex = \<lfloor>product\<rfloor>
           in if 0 \<le> keyIndex \<and> keyIndex < int (length whiteKeys)
              then Some (whiteKeys ! nat keyIndex) else None))"

text \<open>
  The quantiser as the specification words it, for comparison with \<^const>\<open>pitchToMidi\<close>:
  fifteen natural notes in ascending order starting at C4 (two octaves, C4 to C6), and
  the index \<open>\<lfloor>pitchPosition \<times> 14\<rfloor>\<close> clamped to \<open>[0, 14]\<close>.
\<close>

definition spec_scale :: "int list" where
  "spec_scale = [60, 62, 64, 65, 67, 69, 71, 72, 74, 76, 77, 79, 81, 83, 84]"

definition spec_pitchToMidi :: "real \<Rightarrow> int" where
  "spec_pitchToMidi pitchPosition = spec_scale ! nat (max 0 (min 14 \<lfloor>pitchPosition * 14\<rfloor>))"

subsection \<open>Landmarks and gesture classification (\<^verbatim>\<open>detectVowel\<close>)\<close>

text \<open>
  A landmark is a point in normalised image space; its optional depth \<^verbatim>\<open>z\<close> is never
  read by the control code and is left out. A hand is a JavaScript array of landmarks
  whose entries may be missing (\<^verbatim>\<open>undefined\<close>).
\<close>

record Landmark =
  lm_x :: real
  lm_y :: real

datatype vowel = VowelA | VowelO | VowelNONE

text \<open>\<^verbatim>\<open>arr[i]\<close>: an index outside the array reads \<^verbatim>\<open>undefined\<close>.\<close>

definition js_nth :: "'a option list \<Rightarrow> nat \<Rightarrow> 'a option" where
  "js_nth arr i = (if i < length arr then arr ! i else None)"

type_synonym finger = "Landmark option \<times> Landmark option"

text \<open>The four (tip, pip) pairs: index, middle, ring, pinky.\<close>

definition fingers_of :: "Landmark option list \<Rightarrow> finger list" where
  "fingers_of landmarks =
     [(js_nth landmarks 8, js_nth landmarks 6),
      (js_nth landmarks 12, js_nth landmarks 10),
      (js_nth landmarks 16, js_nth landmarks 14),
      (js_nth landmarks 20, js_nth landmarks 18)]"

text \<open>\<^verbatim>\<open>finger.tip && finger.pip\<close>: both objects are present.\<close>

definition valid_finger :: "finger \<Rightarrow> bool" where
  "valid_finger f = (fst f \<noteq> None \<and> snd f \<noteq> None)"

text \<open>
  \<^verbatim>\<open>finger.tip.y < finger.pip.y\<close> and \<^verbatim>\<open>finger.tip.y > finger.pip.y\<close>, evaluated by the
  source on fingers that passed the validity filter only.
\<close>

definition tip_above :: "finger \<Rightarrow> bool" where
  "tip_above f = (lm_y (the (fst f)) < lm_y (the (snd f)))"

definition tip_below :: "finger \<Rightarrow> bool" where
  "tip_below f = (lm_y (the (fst f)) > lm_y (the (snd f)))"

text \<open>
  \<^verbatim>\<open>detectVowel\<close> of the component the page mounts. The argument is
  \<^const>\<open>None\<close> when the array itself is \<^verbatim>\<open>null\<close> or \<^verbatim>\<open>undefined\<close>.
\<close>

definition detectVowel :: "Landmark option list option \<Rightarrow> vowel" where
  "detectVowel landmarks =
     (case landmarks of
        None \<Rightarrow> VowelNONE
      | Some lms \<Rightarrow>
          if length lms < 21 then VowelNONE
          else
            let fingers = fingers_of lms;
                validFingers = filter valid_finger fingers
            in if length validFingers < 3 then VowelNONE
               else
                 let extendedFingers = length (filter tip_above validFingers);
                     foldedFingers = length (filter tip_below validFingers)
                 in if extendedFingers \<ge> 3 then VowelA
                    else if foldedFingers \<ge> 3 then VowelO
                    else VowelNONE)"

text \<open>
  The second copy of the component has no validity filter: reading
  \<^verbatim>\<open>.y\<close> of a missing tip or pip raises a \<^verbatim>\<open>TypeError\<close> inside the first filter callback.
\<close>

datatype js_error = TypeError | HarmonizerNotReady | AudioContextError

definition detectVowel_unfiltered :: "Landmark option list option \<Rightarrow> js_error + vowel" where
  "detectVowel_unfiltered landmarks =
     (case landmarks of
        None \<Rightarrow> Inr VowelNONE
      | Some lms \<Rightarrow>
          if length lms < 21 then Inr VowelNONE
          else
            let fingers = fingers_of lms
            in if \<not> list_all valid_finger fingers then Inl TypeError
               else
                 let extendedFingers = length (filter tip_above fingers);
                     foldedFingers = length (filter tip_below fingers)
                 in if extendedFingers \<ge> 3 then Inr VowelA
                    else if foldedFingers \<ge> 3 then Inr VowelO
                    else Inr VowelNONE)"

text \<open>
  The classification as the specification words it: each pair is missing, extended
  (\<open>tip.y < pip.y\<close>), folded (\<open>tip.y > pip.y\<close>) or level, and the pairs of each kind are
  counted over the four pairs directly.
\<close>

datatype finger_state = Missing | Extended | Folded | Level

fun finger_state_of :: "finger \<Rightarrow> finger_state" where
  "finger_state_of (Some tip, Some pip) =
     (if lm_y tip < lm_y pip then Extended
      else if lm_y tip > lm_y pip then Folded else Level)"
| "finger_state_of (tip, pip) = Missing"

definition count_state :: "finger_state \<Rightarrow> Landmark option list \<Rightarrow> nat" where
  "count_state st landmarks = length (filter (\<lambda>f. finger_state_of f = st) (fingers_of landmarks))"

definition count_valid :: "Landmark option list \<Rightarrow> nat" where
  "count_valid landmarks =
     length (filter (\<lambda>f. finger_state_of f \<noteq> Missing) (fingers_of landmarks))"

text \<open>
  A synthetic hand of 21 landmarks for the examples: every landmark at height 0.5,
  except the four finger tips, whose heights are given.
\<close>

definition synthetic_hand :: "real \<Rightarrow> real \<Rightarrow> real \<Rightarrow> real \<Rightarrow> Landmark option list" where
  "synthetic_hand index_y middle_y ring_y pinky_y =
     (replicate 21 (Some \<lparr>lm_x = 0.5, lm_y = 0.5\<rparr>))
       [8 := Some \<lparr>lm_x = 0.5, lm_y = index_y\<rparr>,
        12 := Some \<lparr>lm_x = 0.5, lm_y = middle_y\<rparr>,
        16 := Some \<lparr>lm_x = 0.5, lm_y = ring_y\<rparr>,
        20 := Some \<lparr>lm_x = 0.5, lm_y = pinky_y\<rparr>]"

subsection \<open>Per-frame hand state (\<^verbatim>\<open>onResults\<close>)\<close>

datatype HandPreference = PrefLeft | PrefRight

record HandPosition =
  hp_x :: real
  hp_y :: real
  hp_detected :: bool
  hp_vowel :: vowel

record VolumeHand =
  vh_y :: real
  vh_detected :: bool

text \<open>
  The detector's result for one video frame. \<^verbatim>\<open>multiHandedness\<close> carries one label per
  hand; both fields are optional in the source's interface.
\<close>

record HandResults =
  multiHandLandmarks :: "Landmark option list list option"
  multiHandedness :: "string list option"

text \<open>
  \<^verbatim>\<open>results.multiHandedness?.[handIndex]?.label || 'Unknown'\<close>: a missing array, a
  missing entry and an empty label all give \<^verbatim>\<open>'Unknown'\<close>.
\<close>

definition handedness_of :: "string list option \<Rightarrow> nat \<Rightarrow> string" where
  "handedness_of labels handIndex =
     (case labels of
        None \<Rightarrow> ''Unknown''
      | Some ls \<Rightarrow>
          if handIndex < length ls \<and> ls ! handIndex \<noteq> [] then ls ! handIndex
          else ''Unknown'')"

text \<open>
  Role resolution. The preference is \<^const>\<open>None\<close> when \<^verbatim>\<open>handPreference\<close> is \<^verbatim>\<open>null\<close>.
  The source's comment: due to camera mirroring, the hand detection is flipped.
\<close>

definition isControlHand :: "HandPreference option \<Rightarrow> string \<Rightarrow> bool" where
  "isControlHand handPreference handedness =
     (let isRightHand = (handedness = ''Right''); isLeftHand = (handedness = ''Left'')
      in (handPreference = Some PrefRight \<and> isLeftHand) \<or>
         (handPreference = Some PrefLeft \<and> isRightHand))"

definition isVolumeHand :: "HandPreference option \<Rightarrow> string \<Rightarrow> bool" where
  "isVolumeHand handPreference handedness =
     (let isRightHand = (handedness = ''Right''); isLeftHand = (handedness = ''Left'')
      in (handPreference = Some PrefRight \<and> isRightHand) \<or>
         (handPreference = Some PrefLeft \<and> isLeftHand))"

type_synonym hand_data = "HandPosition option \<times> VolumeHand option"

text \<open>
  The "store hand data" step of the \<^verbatim>\<open>forEach\<close> callback, on the pair
  (\<^verbatim>\<open>controlHandData\<close>, \<^verbatim>\<open>volumeHandData\<close>) collected so far.
\<close>

definition store_hand ::
  "HandPreference option \<Rightarrow> string \<Rightarrow> Landmark option list \<Rightarrow> hand_data \<Rightarrow> hand_data" where
  "store_hand handPreference handedness landmarks acc =
     (if isControlHand handPreference handedness \<and> length landmarks > 8 then
        (case js_nth landmarks 8 of
           Some indexTip \<Rightarrow>
             (Some \<lparr>hp_x = lm_x indexTip, hp_y = lm_y indexTip, hp_detected = True,
                    hp_vowel = detectVowel (Some landmarks)\<rparr>, snd acc)
         | None \<Rightarrow> acc)
      else if isVolumeHand handPreference handedness \<and> length landmarks > 8 then
        (case js_nth landmarks 8 of
           Some indexTip \<Rightarrow> (fst acc, Some \<lparr>vh_y = lm_y indexTip, vh_detected = True\<rparr>)
         | None \<Rightarrow> acc)
      else acc)"

text \<open>
  The drawing loop of the callback, \<^verbatim>\<open>landmarks.forEach(landmark => ...)\<close>, reads
  \<^verbatim>\<open>landmark.x\<close> and \<^verbatim>\<open>landmark.y\<close> of every entry of the hand: it completes exactly when
  no entry is \<^verbatim>\<open>undefined\<close> or \<^verbatim>\<open>null\<close>, and throws a \<^verbatim>\<open>TypeError\<close> otherwise. What it
  paints is not part of the state. The loop over the connections guards its reads.
\<close>

definition drawable :: "Landmark option list \<Rightarrow> bool" where
  "drawable landmarks = list_all (\<lambda>landmark. landmark \<noteq> None) landmarks"

text \<open>
  \<^verbatim>\<open>results.multiHandLandmarks.forEach((landmarks, handIndex) => ...)\<close>: for each hand
  in turn, resolve the label, draw, then store. An exception of the drawing loop ends
  the whole iteration.
\<close>

fun forEach_hand ::
  "HandPreference option \<Rightarrow> string list option \<Rightarrow> nat \<Rightarrow> Landmark option list list \<Rightarrow>
   hand_data \<Rightarrow> js_error + hand_data" where
  "forEach_hand handPreference labels handIndex [] acc = Inr acc"
| "forEach_hand handPreference labels handIndex (landmarks # rest) acc =
     (if \<not> drawable landmarks then Inl TypeError
      else forEach_hand handPreference labels (Suc handIndex) rest
             (store_hand handPreference (handedness_of labels handIndex) landmarks acc))"

record tracker_state =
  controlHand :: HandPosition
  volumeHand :: VolumeHand

text \<open>The initial values of the two \<^verbatim>\<open>useState\<close> cells.\<close>

definition initial_tracker :: tracker_state where
  "initial_tracker =
     \<lparr>controlHand = \<lparr>hp_x = 0.5, hp_y = 0.5, hp_detected = False, hp_vowel = VowelNONE\<rparr>,
      volumeHand = \<lparr>vh_y = 0.5, vh_detected = False\<rparr>\<rparr>"

text \<open>
  \<^verbatim>\<open>setControlHand(prev => ({...prev, detected: false, vowel: 'NONE'}))\<close> and
  \<^verbatim>\<open>setVolumeHand(prev => ({...prev, detected: false}))\<close>.
\<close>

definition control_lost :: "HandPosition \<Rightarrow> HandPosition" where
  "control_lost prev = prev\<lparr>hp_detected := False, hp_vowel := VowelNONE\<rparr>"

definition volume_lost :: "VolumeHand \<Rightarrow> VolumeHand" where
  "volume_lost prev = prev\<lparr>vh_detected := False\<rparr>"

text \<open>
  \<^verbatim>\<open>onResults\<close>. \<open>surfacesMounted\<close> is false when the canvas or the video element is
  absent, in which case the callback returns before anything else. The state setters
  are called after the iteration over the hands only: an exception of the iteration
  leaves the callback with the state untouched.
\<close>

definition onResults ::
  "bool \<Rightarrow> HandPreference option \<Rightarrow> HandResults \<Rightarrow> tracker_state \<Rightarrow>
   js_error + tracker_state" where
  "onResults surfacesMounted handPreference results s =
     (if \<not> surfacesMounted then Inr s
      else
        (case multiHandLandmarks results of
           Some (h # hs) \<Rightarrow>
             (case forEach_hand handPreference (multiHandedness results) 0 (h # hs)
                     (None, None) of
                Inl err \<Rightarrow> Inl err
              | Inr handData \<Rightarrow>
                  Inr \<lparr>controlHand =
                         (case fst handData of
                            Some controlHandData \<Rightarrow> controlHandData
                          | None \<Rightarrow> control_lost (controlHand s)),
                       volumeHand =
                         (case snd handData of
                            Some volumeHandData \<Rightarrow> volumeHandData
                          | None \<Rightarrow> volume_lost (volumeHand s))\<rparr>)
         | _ \<Rightarrow>
             Inr \<lparr>controlHand = control_lost (controlHand s),
                  volumeHand = volume_lost (volumeHand s)\<rparr>))"

text \<open>
  The hand state after a frame. An exception leaves the callback before any state setter
  has run (the frame loop catches and logs what reaches it), so the state is then what
  it was.
\<close>

definition frame_update ::
  "bool \<Rightarrow> HandPreference option \<Rightarrow> HandResults \<Rightarrow> tracker_state \<Rightarrow> tracker_state" where
  "frame_update surfacesMounted handPreference results s =
     (case onResults surfacesMounted handPreference results s of
        Inr s' \<Rightarrow> s'
      | Inl err \<Rightarrow> s)"

text \<open>The values the component derives from the hand state on every render.\<close>

definition currentPitch :: "tracker_state \<Rightarrow> real" where
  "currentPitch s =
     (if hp_detected (controlHand s) then getPitchFromY (hp_y (controlHand s)) else 0)"

definition currentVolume :: "tracker_state \<Rightarrow> real" where
  "currentVolume s =
     (if vh_detected (volumeHand s) then getVolumeFromY (vh_y (volumeHand s)) else 0.5)"

text \<open>
  The volume effect's target. The source's comment: use the detected volume hand
  position, fall back to the default 50 percent.
\<close>

definition targetVolume :: "tracker_state \<Rightarrow> real" where
  "targetVolume s = (if vh_detected (volumeHand s) then currentVolume s else 0.5)"

subsection \<open>The audio engine (\<^verbatim>\<open>VocalAudioEngine\<close>, \<^verbatim>\<open>VocalVoice\<close>)\<close>

text \<open>
  An \<^verbatim>\<open>AudioParam\<close> is modelled by the list of automation calls made on it, oldest first.
  What the audio backend renders from them is outside the source.
\<close>

datatype param_call =
    CancelScheduledValues real
  | SetValueAtTime real real
  | LinearRampToValueAtTime real real

text \<open>
  What the engine reads from the browser during one call: the audio clock
  \<^verbatim>\<open>audioContext.currentTime\<close>, the instantaneous \<^verbatim>\<open>gain.value\<close> of the master gain and of
  each voice's gain node (by voice type), whether constructing the \<^verbatim>\<open>AudioContext\<close>
  succeeds, and whether resuming a suspended context succeeds.
\<close>

record audio_env =
  currentTime :: real
  masterGainValue :: real
  voiceGainValue :: "string \<Rightarrow> real"
  contextAvailable :: bool
  resumeSucceeds :: bool

record Oscillator =
  osc_type :: string
  osc_frequency :: "param_call list"
  osc_start :: "real option"
  osc_stop :: "real option"

record VocalVoice =
  vv_frequency :: real
  vv_voiceType :: string
  oscillator1 :: Oscillator
  oscillator2 :: Oscillator
  filter_frequency :: "param_call list"
  filter_Q :: "param_call list"
  gainNode :: "param_call list"

text \<open>
  \<open>currentVoices\<close> is the \<^verbatim>\<open>Map\<close> of the source, in insertion order. \<open>masterGain\<close> is
  \<^const>\<open>None\<close> until the engine is initialised. \<open>releasedVoices\<close> is not a field of the
  source: it records the voices dropped from the map, which stay in the audio graph
  until their oscillators stop, so that their fade-out can be stated.
\<close>

record VocalAudioEngine =
  isInitialized :: bool
  masterGain :: "param_call list option"
  currentVoices :: "(string \<times> VocalVoice) list"
  releasedVoices :: "VocalVoice list"

definition new_engine :: VocalAudioEngine where
  "new_engine = \<lparr>isInitialized = False, masterGain = None, currentVoices = [],
                  releasedVoices = []\<rparr>"

text \<open>\<^verbatim>\<open>Map.prototype.set\<close>: replace the value of an existing key in place, else append.\<close>

fun Map_set :: "'k \<Rightarrow> 'v \<Rightarrow> ('k \<times> 'v) list \<Rightarrow> ('k \<times> 'v) list" where
  "Map_set k v [] = [(k, v)]"
| "Map_set k v ((k', v') # rest) =
     (if k = k' then (k, v) # rest else (k', v') # Map_set k v rest)"

text \<open>\<^verbatim>\<open>440 * Math.pow(2, (midiNote - 69) / 12)\<close>\<close>

definition midiToFrequency :: "int \<Rightarrow> real" where
  "midiToFrequency midiNote = 440 * 2 powr ((real_of_int midiNote - 69) / 12)"

definition formant_frequency :: "string \<Rightarrow> real" where
  "formant_frequency voiceType =
     (if voiceType = ''soprano'' then 1200
      else if voiceType = ''alto'' then 900
      else if voiceType = ''tenor'' then 650
      else if voiceType = ''bass'' then 400
      else 800)"

text \<open>
  The \<^verbatim>\<open>VocalVoice\<close> constructor: two oscillators (sawtooth, and triangle detuned by
  0.2 percent), the band-pass filter of the voice type with Q 2, and the gain envelope
  (0 now, linear ramp to the sustain level 0.25 over the attack time 0.05).
\<close>

definition new_VocalVoice :: "audio_env \<Rightarrow> int \<Rightarrow> string \<Rightarrow> VocalVoice" where
  "new_VocalVoice env midiNote voiceType =
     (let now = currentTime env; frequency = midiToFrequency midiNote;
          attackTime = 0.05; sustainLevel = 0.25
      in \<lparr>vv_frequency = frequency,
           vv_voiceType = voiceType,
           oscillator1 = \<lparr>osc_type = ''sawtooth'',
                           osc_frequency = [SetValueAtTime frequency now],
                           osc_start = None, osc_stop = None\<rparr>,
           oscillator2 = \<lparr>osc_type = ''triangle'',
                           osc_frequency = [SetValueAtTime (frequency * 1.002) now],
                           osc_start = None, osc_stop = None\<rparr>,
           filter_frequency = [SetValueAtTime (formant_frequency voiceType) now],
           filter_Q = [SetValueAtTime 2.0 now],
           gainNode = [SetValueAtTime 0 now,
                       LinearRampToValueAtTime sustainLevel (now + attackTime)]\<rparr>)"

text \<open>\<^verbatim>\<open>VocalVoice.start\<close>: both oscillators start at the current audio time.\<close>

definition voice_start :: "audio_env \<Rightarrow> VocalVoice \<Rightarrow> VocalVoice" where
  "voice_start env v =
     (let now = currentTime env
      in v\<lparr>oscillator1 := (oscillator1 v)\<lparr>osc_start := Some now\<rparr>,
           oscillator2 := (oscillator2 v)\<lparr>osc_start := Some now\<rparr>\<rparr>)"

text \<open>
  \<^verbatim>\<open>VocalVoice.stop\<close>: hold the gain at its current value, ramp it to 0 over the release
  time 0.1, and stop both oscillators at the end of the ramp.
\<close>

definition voice_stop :: "audio_env \<Rightarrow> VocalVoice \<Rightarrow> VocalVoice" where
  "voice_stop env v =
     (let now = currentTime env; releaseTime = 0.1
      in v\<lparr>gainNode := gainNode v @
                [CancelScheduledValues now,
                 SetValueAtTime (voiceGainValue env (vv_voiceType v)) now,
                 LinearRampToValueAtTime 0 (now + releaseTime)],
           oscillator1 := (oscillator1 v)\<lparr>osc_stop := Some (now + releaseTime)\<rparr>,
           oscillator2 := (oscillator2 v)\<lparr>osc_stop := Some (now + releaseTime)\<rparr>\<rparr>)"

text \<open>\<^verbatim>\<open>stopAll\<close>: stop every current voice, then clear the map.\<close>

definition stopAll :: "audio_env \<Rightarrow> VocalAudioEngine \<Rightarrow> VocalAudioEngine" where
  "stopAll env e =
     e\<lparr>releasedVoices := releasedVoices e @ map (\<lambda>(k, voice). voice_stop env voice) (currentVoices e),
       currentVoices := []\<rparr>"

text \<open>
  \<^verbatim>\<open>initialize\<close>: nothing when already initialised; otherwise create the context and the
  master gain (default volume 0.5) and mark the engine initialised, then resume the
  context if it is suspended. A failure is rethrown; the engine it leaves is returned
  with it.
\<close>

definition initialize :: "audio_env \<Rightarrow> VocalAudioEngine \<Rightarrow> js_error option \<times> VocalAudioEngine" where
  "initialize env e =
     (if isInitialized e then (None, e)
      else if \<not> contextAvailable env then (Some AudioContextError, e)
      else
        (let e' = e\<lparr>masterGain := Some [SetValueAtTime 0.5 (currentTime env)],
                    isInitialized := True\<rparr>
         in if resumeSucceeds env then (None, e') else (Some AudioContextError, e')))"

text \<open>
  \<^verbatim>\<open>playChord\<close>: initialise on first use, stop all current voices, create the four voices
  and start them. The steps after the \<^verbatim>\<open>await\<close> run without interruption; the model runs
  the whole call against one reading of the audio clock.
\<close>

definition playChord ::
  "audio_env \<Rightarrow> int \<Rightarrow> int \<Rightarrow> int \<Rightarrow> int \<Rightarrow> VocalAudioEngine \<Rightarrow> js_error option \<times> VocalAudioEngine" where
  "playChord env soprano alto tenor bass e =
     (let (err, e1) = (if \<not> isInitialized e then initialize env e else (None, e))
      in case err of
           Some failure \<Rightarrow> (Some failure, e1)
         | None \<Rightarrow>
             (let e2 = stopAll env e1;
                  vs1 = Map_set ''soprano'' (new_VocalVoice env soprano ''soprano'') (currentVoices e2);
                  vs2 = Map_set ''alto'' (new_VocalVoice env alto ''alto'') vs1;
                  vs3 = Map_set ''tenor'' (new_VocalVoice env tenor ''tenor'') vs2;
                  vs4 = Map_set ''bass'' (new_VocalVoice env bass ''bass'') vs3
              in (None, e2\<lparr>currentVoices := map (\<lambda>(k, voice). (k, voice_start env voice)) vs4\<rparr>)))"

text \<open>
  \<^verbatim>\<open>setMasterVolume\<close>: nothing when the engine is not initialised or has no master gain;
  otherwise clamp, hold the gain at its current value and ramp linearly to the clamped
  volume over the transition time 0.05.
\<close>

definition setMasterVolume :: "audio_env \<Rightarrow> real \<Rightarrow> VocalAudioEngine \<Rightarrow> VocalAudioEngine" where
  "setMasterVolume env volume e =
     (case masterGain e of
        None \<Rightarrow> e
      | Some gain \<Rightarrow>
          if \<not> isInitialized e then e
          else
            (let clampedVolume = max 0 (min 1 volume);
                 now = currentTime env;
                 transitionTime = 0.05
             in e\<lparr>masterGain := Some (gain @
                    [CancelScheduledValues now,
                     SetValueAtTime (masterGainValue env) now,
                     LinearRampToValueAtTime clampedVolume (now + transitionTime)])\<rparr>))"

text \<open>The calls the application makes on the engine, and a run of them.\<close>

datatype engine_call =
    PlayChord audio_env int int int int
  | StopAll audio_env
  | SetMasterVolume audio_env real

fun engine_step :: "engine_call \<Rightarrow> VocalAudioEngine \<Rightarrow> VocalAudioEngine" where
  "engine_step (PlayChord env soprano alto tenor bass) e = snd (playChord env soprano alto tenor bass e)"
| "engine_step (StopAll env) e = stopAll env e"
| "engine_step (SetMasterVolume env volume) e = setMasterVolume env volume e"

fun engine_run :: "engine_call list \<Rightarrow> VocalAudioEngine \<Rightarrow> VocalAudioEngine" where
  "engine_run [] e = e"
| "engine_run (c # cs) e = engine_run cs (engine_step c e)"

text \<open>
  The body of the volume effect of the component. It runs at the mount and after every
  render in which one of its dependencies, \<^verbatim>\<open>[volumeHand.detected, currentVolume]\<close>,
  differs from the render before: \<open>volume_render\<close> is the effect between the render of
  the state \<open>prev\<close> and the render of the state \<open>s\<close>.
\<close>

definition volume_effect :: "audio_env \<Rightarrow> tracker_state \<Rightarrow> VocalAudioEngine \<Rightarrow> VocalAudioEngine" where
  "volume_effect env s e = setMasterVolume env (targetVolume s) e"



subsection \<open>The harmonizer hook (\<^verbatim>\<open>useHarmonizer\<close>)\<close>

text \<open>
  Modelled from the spec: the declarations of \<^verbatim>\<open>HarmonizerNote\<close>, \<^verbatim>\<open>MelodyNote\<close>,
  \<^verbatim>\<open>HarmonyChord\<close> and \<^verbatim>\<open>HarmonySequence\<close> (module \<^verbatim>\<open>types/harmonizer\<close>) are not among the
  sources. A note carries the MIDI number the component reads (\<^verbatim>\<open>.midiNote\<close>); a chord
  is four notes tagged soprano, alto, tenor, bass; a sequence has the fields that
  \<^verbatim>\<open>startNewSequence\<close> fills in.
\<close>

record HarmonizerNote =
  hn_midiNote :: int

record MelodyNote =
  mn_midiNote :: int
  mn_noteName :: string
  mn_timestamp :: nat

record HarmonyChord =
  hc_soprano :: HarmonizerNote
  hc_alto :: HarmonizerNote
  hc_tenor :: HarmonizerNote
  hc_bass :: HarmonizerNote

record HarmonySequence =
  seq_id :: string
  seq_title :: string
  seq_melody :: "MelodyNote list"
  seq_harmonies :: "HarmonyChord list"
  seq_createdAt :: nat

text \<open>
  The state of the hook. \<open>workerRef\<close> tells whether the worker reference is set and
  \<open>posted\<close> lists the notes posted to the worker, oldest first. \<open>harmonySets\<close> is not a
  field of the source: it counts the calls of \<^verbatim>\<open>setCurrentHarmony\<close> with a fresh chord
  object, and stands for the identity of the chord that the component's effect depends on.
\<close>

record harmonizer =
  isReady :: bool
  workerRef :: bool
  posted :: "int option list"
  isRealTimeMode :: bool
  currentHarmony :: "HarmonyChord option"
  harmonySets :: nat
  sequenceRef :: "HarmonySequence option"
  currentSequence :: "HarmonySequence option"

text \<open>
  \<^verbatim>\<open>handleHarmonyReceived\<close>: return at once on fewer than four notes; otherwise tag the
  first four, publish the chord, and outside real-time mode append it to the sequence.
\<close>

definition handleHarmonyReceived :: "HarmonizerNote list \<Rightarrow> harmonizer \<Rightarrow> harmonizer" where
  "handleHarmonyReceived notes h =
     (if length notes < 4 then h
      else
        (let newChord = \<lparr>hc_soprano = notes ! 0, hc_alto = notes ! 1,
                         hc_tenor = notes ! 2, hc_bass = notes ! 3\<rparr>;
             h1 = h\<lparr>currentHarmony := Some newChord, harmonySets := Suc (harmonySets h)\<rparr>
         in case sequenceRef h1 of
              Some sq \<Rightarrow>
                if \<not> isRealTimeMode h1 then
                  (let updatedSequence = sq\<lparr>seq_harmonies := seq_harmonies sq @ [newChord]\<rparr>
                   in h1\<lparr>sequenceRef := Some updatedSequence,
                         currentSequence := Some updatedSequence\<rparr>)
                else h1
            | None \<Rightarrow> h1))"

text \<open>
  \<^verbatim>\<open>harmonizeNoteRealTime\<close>: throw when the hook is not ready or has no worker, else post
  the note. The argument is what \<^const>\<open>pitchToMidi\<close> returned.
\<close>

definition harmonizeNoteRealTime :: "int option \<Rightarrow> harmonizer \<Rightarrow> js_error + harmonizer" where
  "harmonizeNoteRealTime midiNote h =
     (if \<not> isReady h \<or> \<not> workerRef h then Inl HarmonizerNotReady
      else Inr (h\<lparr>posted := posted h @ [midiNote]\<rparr>))"

subsection \<open>The component's effects on the hook and the engine\<close>

text \<open>
  \<open>lastPlayedNoteRef\<close> is \<^const>\<open>None\<close> for \<^verbatim>\<open>null\<close>, and otherwise holds the value of
  \<^const>\<open>pitchToMidi\<close> that was last submitted.
\<close>

record session =
  lastPlayedNoteRef :: "int option option"
  hook :: harmonizer
  audioEngine :: VocalAudioEngine

text \<open>
  The body of the harmonization effect. An exception of \<^const>\<open>harmonizeNoteRealTime\<close> is
  caught and logged, and the assignment after the call is then skipped. React runs the
  body at the mount and after every render in which one of its dependencies differs from
  the render before (\<open>harmonization_render\<close> below); a property of every run of the body
  is a property of each of those runs.
\<close>

definition harmonization_effect :: "audio_env \<Rightarrow> tracker_state \<Rightarrow> session \<Rightarrow> session" where
  "harmonization_effect env t s =
     (let detected = hp_detected (controlHand t);
          gesture = hp_vowel (controlHand t);
          harmonizerReady = isReady (hook s)
      in if detected \<and> harmonizerReady \<and> gesture \<noteq> VowelNONE then
           (let currentMidiNote = pitchToMidi (currentPitch t)
            in if Some currentMidiNote \<noteq> lastPlayedNoteRef s then
                 (case harmonizeNoteRealTime currentMidiNote (hook s) of
                    Inr h' \<Rightarrow> s\<lparr>hook := h', lastPlayedNoteRef := Some currentMidiNote\<rparr>
                  | Inl err \<Rightarrow> s)
               else s)
         else if \<not> detected \<or> gesture = VowelNONE then
           s\<lparr>audioEngine := stopAll env (audioEngine s), lastPlayedNoteRef := None\<rparr>
         else s)"

text \<open>
  The dependencies of the effect that change with the state: \<^verbatim>\<open>controlHand.detected\<close>,
  \<^verbatim>\<open>controlHand.vowel\<close>, \<^verbatim>\<open>currentPitch\<close> and \<^verbatim>\<open>harmonizerReady\<close> (\<^verbatim>\<open>harmonizeNoteRealTime\<close>
  changes with the last; \<^verbatim>\<open>pitchToMidi\<close> never changes). \<open>harmonization_render\<close> is the
  effect between the render of the hand state \<open>prev\<close> with readiness \<open>prevReady\<close> and the
  render of the hand state \<open>t\<close>.
\<close>

definition harmonization_deps :: "tracker_state \<Rightarrow> bool \<Rightarrow> bool \<times> vowel \<times> real \<times> bool" where
  "harmonization_deps t harmonizerReady =
     (hp_detected (controlHand t), hp_vowel (controlHand t), currentPitch t, harmonizerReady)"

definition harmonization_render ::
  "audio_env \<Rightarrow> tracker_state \<Rightarrow> bool \<Rightarrow> tracker_state \<Rightarrow> session \<Rightarrow> session" where
  "harmonization_render env prev prevReady t s =
     (if harmonization_deps t (isReady (hook s)) \<noteq> harmonization_deps prev prevReady
      then harmonization_effect env t s else s)"

text \<open>The body run once per frame over a sequence of frames.\<close>

fun run_frames :: "(audio_env \<times> tracker_state) list \<Rightarrow> session \<Rightarrow> session" where
  "run_frames [] s = s"
| "run_frames ((env, t) # rest) s = run_frames rest (harmonization_effect env t s)"

text \<open>
  The effect "play audio when harmony changes": a non-null chord goes to
  \<^const>\<open>playChord\<close>; a rejection is logged.
\<close>

definition playHarmony_effect :: "audio_env \<Rightarrow> session \<Rightarrow> session" where
  "playHarmony_effect env s =
     (case currentHarmony (hook s) of
        Some chord \<Rightarrow>
          s\<lparr>audioEngine :=
              snd (playChord env (hn_midiNote (hc_soprano chord)) (hn_midiNote (hc_alto chord))
                     (hn_midiNote (hc_tenor chord)) (hn_midiNote (hc_bass chord))
                     (audioEngine s))\<rparr>
      | None \<Rightarrow> s)"

text \<open>
  A \<^verbatim>\<open>Notes\<close> message of the worker: the handler runs, and the play effect runs after it
  exactly when the handler has set a new chord.
\<close>

definition on_notes_message :: "audio_env \<Rightarrow> HarmonizerNote list \<Rightarrow> session \<Rightarrow> session" where
  "on_notes_message env notes s =
     (let h' = handleHarmonyReceived notes (hook s);
          s' = s\<lparr>hook := h'\<rparr>
      in if harmonySets h' \<noteq> harmonySets (hook s) then playHarmony_effect env s' else s')"

subsection \<open>Notions used to state the properties\<close>



text \<open>A frame on which the control hand is detected with a gesture and quantises to \<open>n\<close>.\<close>

definition holds_note :: "int option \<Rightarrow> audio_env \<times> tracker_state \<Rightarrow> bool" where
  "holds_note n frame =
     (hp_detected (controlHand (snd frame)) \<and>
      hp_vowel (controlHand (snd frame)) \<noteq> VowelNONE \<and>
      pitchToMidi (currentPitch (snd frame)) = n)"

text \<open>The hook accepts a request: it is ready and has its worker.\<close>

definition can_submit :: "session \<Rightarrow> bool" where
  "can_submit s = (isReady (hook s) \<and> workerRef (hook s))"

text \<open>What one submission does to the session: the note is posted and recorded.\<close>

definition submit :: "int option \<Rightarrow> session \<Rightarrow> session" where
  "submit n s =
     s\<lparr>hook := (hook s)\<lparr>posted := posted (hook s) @ [n]\<rparr>, lastPlayedNoteRef := Some n\<rparr>"

definition voice_keys :: "VocalAudioEngine \<Rightarrow> string list" where
  "voice_keys e = map fst (currentVoices e)"

definition satb :: "string list" where
  "satb = [''soprano'', ''alto'', ''tenor'', ''bass'']"

definition voices_ok :: "VocalAudioEngine \<Rightarrow> bool" where
  "voices_ok e = (voice_keys e = [] \<or> voice_keys e = satb)"

subsection \<open>Concrete inputs for the examples\<close>

text \<open>
  A browser in which the audio context can be created, at audio time \<open>t\<close>, with the
  master gain reading 0.5 and every voice gain reading 0.25.
\<close>

definition env_at :: "real \<Rightarrow> audio_env" where
  "env_at t = \<lparr>currentTime = t, masterGainValue = 0.5, voiceGainValue = (\<lambda>voiceType. 0.25),
               contextAvailable = True, resumeSucceeds = True\<rparr>"

definition running_engine :: VocalAudioEngine where
  "running_engine = snd (initialize (env_at 0) new_engine)"

text \<open>
  Both hands tracked: the control hand at the bottom of the image (pitch position 0)
  with an open palm, the volume hand near the top (height 0.125, volume 0.875).
\<close>

definition tracked_state :: tracker_state where
  "tracked_state =
     \<lparr>controlHand = \<lparr>hp_x = 0.5, hp_y = 1, hp_detected = True, hp_vowel = VowelA\<rparr>,
      volumeHand = \<lparr>vh_y = 0.125, vh_detected = True\<rparr>\<rparr>"

definition empty_frame :: HandResults where
  "empty_frame = \<lparr>multiHandLandmarks = Some [], multiHandedness = Some []\<rparr>"


text \<open>
  A frame with two hands: the first, labelled Right, with its fingers folded, the
  second, labelled Left, with its fingers extended.
\<close>

definition two_hand_frame :: HandResults where
  "two_hand_frame =
     \<lparr>multiHandLandmarks =
        Some [synthetic_hand 0.75 0.75 0.75 0.75, synthetic_hand 0.25 0.25 0.25 0.25],
      multiHandedness = Some [''Right'', ''Left'']\<rparr>"

definition ready_hook :: harmonizer where
  "ready_hook = \<lparr>isReady = True, workerRef = True, posted = [], isRealTimeMode = True,
                 currentHarmony = None, harmonySets = 0, sequenceRef = None,
                 currentSequence = None\<rparr>"

definition fresh_session :: session where
  "fresh_session = \<lparr>lastPlayedNoteRef = None, hook = ready_hook, audioEngine = new_engine\<rparr>"

definition note_of :: "int \<Rightarrow> HarmonizerNote" where
  "note_of m = \<lparr>hn_midiNote = m\<rparr>"

section \<open>Facts about double-precision rounding\<close>

lemma round_half_even_int: "round_half_even (real_of_int n) = n"
  by (simp add: round_half_even_def)

lemma round_half_even_lower: "\<lfloor>q\<rfloor> \<le> round_half_even q"
  by (simp add: round_half_even_def Let_def)

lemma round_half_even_upper: "round_half_even q \<le> \<lfloor>q\<rfloor> + 1"
  by (simp add: round_half_even_def Let_def)

lemma round_half_even_mono:
  assumes "q \<le> q'"
  shows "round_half_even q \<le> round_half_even q'"
proof (cases "\<lfloor>q\<rfloor> = \<lfloor>q'\<rfloor>")
  case True
  have "q - real_of_int \<lfloor>q\<rfloor> \<le> q' - real_of_int \<lfloor>q'\<rfloor>"
    using assms True by simp
  then show ?thesis
    using True by (auto simp: round_half_even_def Let_def)
next
  case False
  have "\<lfloor>q\<rfloor> \<le> \<lfloor>q'\<rfloor>" using assms by (rule floor_mono)
  then have "\<lfloor>q\<rfloor> + 1 \<le> \<lfloor>q'\<rfloor>" using False by simp
  then show ?thesis
    using round_half_even_upper[of q] round_half_even_lower[of q'] by linarith
qed

lemma ulp_pos: "0 < ulp v"
  by (simp add: ulp_def)

lemma binade_ge: "- 1022 \<le> binade v"
  by (simp add: binade_def)

lemma binade_mono:
  assumes "0 < v" "v \<le> w"
  shows "binade v \<le> binade w"
proof -
  have "log 2 \<bar>v\<bar> \<le> log 2 \<bar>w\<bar>" using assms by simp
  then have "\<lfloor>log 2 \<bar>v\<bar>\<rfloor> \<le> \<lfloor>log 2 \<bar>w\<bar>\<rfloor>" by (rule floor_mono)
  then show ?thesis by (simp add: binade_def)
qed

text \<open>
  A positive value lies below the top of its binade and, outside the subnormal range,
  not below its bottom; both ends are doubles, so the rounded value stays between them.
\<close>

lemma below_binade_top:
  assumes "0 < v"
  shows "v < 2 powr (real_of_int (binade v) + 1)"
proof -
  have "v < 2 powr (real_of_int \<lfloor>log 2 v\<rfloor> + 1)"
    using floor_log_eq_powr_iff[of v 2 "\<lfloor>log 2 v\<rfloor>"] assms by simp
  also have "\<dots> \<le> 2 powr (real_of_int (binade v) + 1)"
    using assms by (simp add: binade_def)
  finally show ?thesis .
qed

lemma above_binade_bottom:
  assumes "0 < v" "- 1022 < binade v"
  shows "2 powr real_of_int (binade v) \<le> v"
proof -
  have "binade v = \<lfloor>log 2 v\<rfloor>"
    using assms by (simp add: binade_def max_def split: if_splits)
  then show ?thesis
    using floor_log_eq_powr_iff[of v 2 "\<lfloor>log 2 v\<rfloor>"] assms by simp
qed

lemma scaled_top:
  "2 powr (real_of_int e + 1) / 2 powr (real_of_int e - 52) = real_of_int (2 ^ 53)"
proof -
  have "2 powr (real_of_int e + 1) / 2 powr (real_of_int e - 52) =
        2 powr ((real_of_int e + 1) - (real_of_int e - 52))"
    by (simp only: powr_diff)
  also have "\<dots> = 2 powr 53" by simp
  finally show ?thesis by simp
qed

lemma scaled_bottom:
  "2 powr real_of_int e / 2 powr (real_of_int e - 52) = real_of_int (2 ^ 52)"
proof -
  have "2 powr real_of_int e / 2 powr (real_of_int e - 52) =
        2 powr (real_of_int e - (real_of_int e - 52))"
    by (simp only: powr_diff)
  also have "\<dots> = 2 powr 52" by simp
  finally show ?thesis by simp
qed

lemma round64_le_top:
  assumes "0 < v"
  shows "round64 v \<le> 2 powr (real_of_int (binade v) + 1)"
proof -
  have "v / ulp v \<le> 2 powr (real_of_int (binade v) + 1) / ulp v"
    using below_binade_top[OF assms] ulp_pos[of v] by (simp add: divide_right_mono)
  then have "v / ulp v \<le> real_of_int (2 ^ 53)"
    by (simp only: ulp_def scaled_top)
  then have "round_half_even (v / ulp v) \<le> 2 ^ 53"
    using round_half_even_mono[of "v / ulp v" "real_of_int (2 ^ 53)"]
    by (simp only: round_half_even_int)
  then have "real_of_int (round_half_even (v / ulp v)) * ulp v \<le> real_of_int (2 ^ 53) * ulp v"
    using ulp_pos[of v] by (simp add: mult_right_mono)
  also have "\<dots> = 2 powr (real_of_int (binade v) + 1)"
    using scaled_top[of "binade v"] ulp_pos[of v] by (simp add: ulp_def field_simps)
  finally show ?thesis using assms by (simp add: round64_def)
qed

lemma round64_ge_bottom:
  assumes "0 < v" "- 1022 < binade v"
  shows "2 powr real_of_int (binade v) \<le> round64 v"
proof -
  have "2 powr real_of_int (binade v) / ulp v \<le> v / ulp v"
    using above_binade_bottom[OF assms] ulp_pos[of v] by (simp add: divide_right_mono)
  then have "real_of_int (2 ^ 52) \<le> v / ulp v"
    by (simp only: ulp_def scaled_bottom)
  then have "2 ^ 52 \<le> round_half_even (v / ulp v)"
    using round_half_even_mono[of "real_of_int (2 ^ 52)" "v / ulp v"]
    by (simp only: round_half_even_int)
  then have "real_of_int (2 ^ 52) * ulp v \<le> real_of_int (round_half_even (v / ulp v)) * ulp v"
    using ulp_pos[of v] by (simp add: mult_right_mono)
  moreover have "real_of_int (2 ^ 52) * ulp v = 2 powr real_of_int (binade v)"
    using scaled_bottom[of "binade v"] ulp_pos[of v] by (simp add: ulp_def field_simps)
  ultimately show ?thesis using assms by (simp add: round64_def)
qed

lemma round64_nonneg:
  assumes "0 \<le> v"
  shows "0 \<le> round64 v"
proof (cases "v = 0")
  case True
  then show ?thesis by (simp add: round64_def)
next
  case False
  then have "0 \<le> v / ulp v" using assms ulp_pos[of v] by simp
  then have "0 \<le> round_half_even (v / ulp v)"
    using round_half_even_mono[of "real_of_int 0" "v / ulp v"]
    by (simp add: round_half_even_int del: of_int_0)
  then show ?thesis using ulp_pos[of v] False by (simp add: round64_def)
qed

lemma round64_mono_pos:
  assumes "0 < v" "v \<le> w"
  shows "round64 v \<le> round64 w"
proof (cases "binade v = binade w")
  case True
  then have u: "ulp v = ulp w" by (simp add: ulp_def)
  have "v / ulp w \<le> w / ulp w"
    using assms ulp_pos[of w] by (simp add: divide_right_mono)
  then have "round_half_even (v / ulp w) \<le> round_half_even (w / ulp w)"
    by (rule round_half_even_mono)
  then have "real_of_int (round_half_even (v / ulp w)) * ulp w
               \<le> real_of_int (round_half_even (w / ulp w)) * ulp w"
    using ulp_pos[of w] by (simp add: mult_right_mono)
  then show ?thesis using assms u by (simp add: round64_def)
next
  case False
  then have lt: "binade v < binade w" using binade_mono[OF assms] by simp
  then have w: "- 1022 < binade w" using binade_ge[of v] by simp
  have "round64 v \<le> 2 powr (real_of_int (binade v) + 1)"
    using round64_le_top assms by simp
  also have "\<dots> \<le> 2 powr real_of_int (binade w)"
    using lt by simp
  also have "\<dots> \<le> round64 w"
    using round64_ge_bottom[of w] assms w by simp
  finally show ?thesis .
qed

text \<open>Rounding is monotone on the non-negative reals.\<close>

lemma round64_mono:
  assumes "0 \<le> v" "v \<le> w"
  shows "round64 v \<le> round64 w"
proof (cases "v = 0")
  case True
  then show ?thesis using round64_nonneg[of w] assms by (simp add: round64_def)
next
  case False
  then show ?thesis using round64_mono_pos[of v w] assms by simp
qed

lemma round64_zero: "round64 0 = 0"
  by (simp add: round64_def)

text \<open>
  A value \<open>m / 2\<^sup>n\<close> with \<open>|m| < 2\<^sup>5\<^sup>3\<close> and \<open>n \<le> 1074\<close> is a double, and rounding leaves it
  as it is.
\<close>

lemma binade_dyadic:
  assumes "m \<noteq> 0" "\<bar>m\<bar> < 2 ^ 53" "n \<le> 1074"
  shows "binade (real_of_int m / 2 ^ n) \<le> 52 - int n"
proof -
  let ?v = "real_of_int m / 2 ^ n"
  have pos: "0 < \<bar>?v\<bar>" using assms by simp
  have "\<bar>real_of_int m\<bar> < 2 ^ 53"
    using assms(2) by (metis of_int_abs of_int_less_numeral_power_cancel_iff)
  then have "\<bar>?v\<bar> < 2 ^ 53 / 2 ^ n"
    by (simp add: abs_divide divide_strict_right_mono)
  also have "\<dots> = 2 powr (53 - real n)"
    by (simp add: powr_diff powr_realpow)
  finally have "\<bar>?v\<bar> < 2 powr (53 - real n)" .
  then have "log 2 \<bar>?v\<bar> < 53 - real n"
    using pos by (simp add: log_less_iff)
  then have "log 2 \<bar>?v\<bar> < real_of_int (53 - int n)" by simp
  then have "\<lfloor>log 2 \<bar>?v\<bar>\<rfloor> < 53 - int n" by (simp only: floor_less_iff)
  then show ?thesis using assms(3) by (simp add: binade_def)
qed

lemma round64_dyadic:
  assumes "\<bar>m\<bar> < 2 ^ 53" "n \<le> 1074"
  shows "round64 (real_of_int m / 2 ^ n) = real_of_int m / 2 ^ n"
proof (cases "m = 0")
  case True
  then show ?thesis by (simp add: round64_def)
next
  case False
  let ?v = "real_of_int m / 2 ^ n"
  define d where "d = nat (52 - int n - binade ?v)"
  have d: "int d = 52 - int n - binade ?v"
    using binade_dyadic[OF False assms] by (simp add: d_def)
  have "real_of_int (binade ?v) - 52 = - real n - real d"
    using d by linarith
  then have "ulp ?v = 2 powr (- real n - real d)" by (simp add: ulp_def)
  also have "\<dots> = 1 / (2 ^ n * 2 ^ d)"
    by (simp add: powr_diff powr_minus powr_realpow field_simps)
  finally have u: "ulp ?v = 1 / (2 ^ n * 2 ^ d)" .
  have q: "?v / ulp ?v = real_of_int (m * 2 ^ d)"
    by (simp add: u)
  have nz: "?v \<noteq> 0" using False by simp
  have "round64 ?v = real_of_int (m * 2 ^ d) * ulp ?v"
    using nz by (simp only: round64_def q round_half_even_int if_False)
  also have "\<dots> = ?v" by (simp add: u)
  finally show ?thesis .
qed

lemma round64_int: "\<bar>m\<bar> < 2 ^ 53 \<Longrightarrow> round64 (real_of_int m) = real_of_int m"
  using round64_dyadic[of m 0] by simp

lemma dyadic_small:
  assumes "\<bar>m\<bar> < 2 ^ 53"
  shows "\<bar>real_of_int m / 2 ^ n\<bar> < 2 ^ 1024"
proof -
  have "\<bar>real_of_int m\<bar> < 2 ^ 53"
    using assms by (metis of_int_abs of_int_less_numeral_power_cancel_iff)
  moreover have "\<bar>real_of_int m\<bar> / 2 ^ n \<le> \<bar>real_of_int m\<bar> / 1"
    by (rule divide_left_mono) simp_all
  then have "\<bar>real_of_int m / 2 ^ n\<bar> \<le> \<bar>real_of_int m\<bar>"
    by (simp add: abs_divide)
  moreover have "(2::real) ^ 53 < 2 ^ 1024" by simp
  ultimately show ?thesis by linarith
qed

lemma round_binary64_dyadic:
  assumes "\<bar>m\<bar> < 2 ^ 53" "n \<le> 1074"
  shows "round_binary64 (real_of_int m / 2 ^ n) = Some (real_of_int m / 2 ^ n)"
  using dyadic_small[OF assms(1), of n]
  by (simp only: round_binary64_def round64_dyadic[OF assms] Let_def if_True)

lemma round_binary64_zero: "round_binary64 0 = Some 0"
  using round_binary64_dyadic[of 0 0] by simp

text \<open>
  A tie: the double nearest to 1/9 (written 0.1111111111111111) times 9 is
  \<open>1 - 2\<^sup>-\<^sup>5\<^sup>4\<close>, half-way between the doubles \<open>1 - 2\<^sup>-\<^sup>5\<^sup>3\<close> and 1; it is rounded to 1.
\<close>

lemma binade_half_to_one:
  assumes "1 / 2 \<le> v" "v < 1"
  shows "binade v = - 1"
proof -
  have "\<lfloor>log 2 v\<rfloor> = - 1"
    using assms by (subst floor_log_eq_powr_iff) (simp_all add: powr_minus field_simps)
  moreover have "\<bar>v\<bar> = v" using assms by simp
  ultimately show ?thesis by (simp add: binade_def)
qed

lemma ulp_half_to_one:
  assumes "1 / 2 \<le> v" "v < 1"
  shows "ulp v = 1 / 2 ^ 53"
proof -
  have "ulp v = 2 powr (- 53)"
    by (simp add: ulp_def binade_half_to_one[OF assms])
  also have "\<dots> = 1 / 2 powr 53" by (simp only: powr_minus_divide)
  also have "\<dots> = 1 / 2 ^ 53" by simp
  finally show ?thesis .
qed

lemma round64_ninth_times_nine: "round64 (8006399337547548 / 2 ^ 56 * 9) = 1"
proof -
  let ?v = "8006399337547548 / 2 ^ 56 * 9 :: real"
  have r: "1 / 2 \<le> ?v" "?v < 1" by simp_all
  have q: "?v / (1 / 2 ^ 53) = 18014398509481983 / 2" by simp
  have f: "\<lfloor>18014398509481983 / 2 :: real\<rfloor> = 9007199254740991" by simp
  have h: "round_half_even (18014398509481983 / 2) = 9007199254740992"
    unfolding round_half_even_def Let_def f by simp
  have nz: "?v \<noteq> 0" by simp
  show ?thesis
    unfolding round64_def ulp_half_to_one[OF r] q h using nz by simp
qed

section \<open>Facts about the scale\<close>

lemma whiteKeys_eq: "whiteKeys = [60, 62, 64, 65, 67, 69, 71, 72, 74, 76]"
  by (simp add: whiteKeys_def whiteKeyPattern_def)

lemma length_whiteKeys: "length whiteKeys = 10"
  by (simp add: whiteKeys_eq)

lemma whiteKeys_sorted: "sorted_wrt (<) whiteKeys"
  by (simp add: whiteKeys_eq)

lemma whiteKeys_mono: "i \<le> j \<Longrightarrow> j < 10 \<Longrightarrow> whiteKeys ! i \<le> whiteKeys ! j"
  using sorted_wrt_nth_less[OF whiteKeys_sorted, of i j]
  by (cases "i = j") (auto simp: length_whiteKeys)

lemma whiteKeys_subset_spec_scale: "set whiteKeys \<subseteq> set spec_scale"
  by (simp add: whiteKeys_eq spec_scale_def)

text \<open>The double product of a pitch position in \<open>[0, 1]\<close> and 9 lies in \<open>[0, 9]\<close>.\<close>

lemma product_bounds:
  fixes p :: real
  assumes "0 \<le> p" "p \<le> 1"
  shows "0 \<le> round64 (p * 9) \<and> round64 (p * 9) \<le> 9"
proof -
  have "0 \<le> p * 9" using assms by simp
  then have lo: "0 \<le> round64 (p * 9)" by (rule round64_nonneg)
  have "p * 9 \<le> real_of_int 9" using assms by simp
  then have "round64 (p * 9) \<le> round64 (real_of_int 9)"
    using \<open>0 \<le> p * 9\<close> by (intro round64_mono)
  also have "\<dots> = 9" using round64_int[of 9] by simp
  finally show ?thesis using lo by simp
qed

lemma pitch_index_bounds:
  fixes p :: real
  assumes "0 \<le> p" "p \<le> 1"
  shows "0 \<le> \<lfloor>round64 (p * 9)\<rfloor> \<and> \<lfloor>round64 (p * 9)\<rfloor> \<le> 9"
  using product_bounds[OF assms] by (simp add: floor_le_iff le_floor_iff)

text \<open>
  The rounded product is never below an integer that the exact product reaches, and
  never above one that the exact product stays below: the index is the floor of the
  exact product, or one more when rounding carries the product up to the next integer.
\<close>

lemma floor_round64_between:
  fixes v :: real
  assumes "0 \<le> v" "v \<le> 9"
  shows "\<lfloor>v\<rfloor> \<le> \<lfloor>round64 v\<rfloor> \<and> \<lfloor>round64 v\<rfloor> \<le> \<lfloor>v\<rfloor> + 1"
proof -
  have k: "0 \<le> \<lfloor>v\<rfloor>" "\<lfloor>v\<rfloor> \<le> 9"
    using assms by (simp_all add: floor_le_iff le_floor_iff)
  then have small: "\<bar>\<lfloor>v\<rfloor>\<bar> < 2 ^ 53" "\<bar>\<lfloor>v\<rfloor> + 1\<bar> < 2 ^ 53" by simp_all
  have "round64 (real_of_int \<lfloor>v\<rfloor>) \<le> round64 v"
    using k by (intro round64_mono) simp_all
  then have lo: "real_of_int \<lfloor>v\<rfloor> \<le> round64 v"
    by (simp only: round64_int[OF small(1)])
  have "v \<le> real_of_int (\<lfloor>v\<rfloor> + 1)" by linarith
  then have "round64 v \<le> round64 (real_of_int (\<lfloor>v\<rfloor> + 1))"
    using assms by (intro round64_mono)
  then have hi: "round64 v \<le> real_of_int (\<lfloor>v\<rfloor> + 1)"
    by (simp only: round64_int[OF small(2)])
  show ?thesis
    using lo hi by (simp add: le_floor_iff floor_le_iff)
qed

text \<open>The quantiser on its index; an overflowing product reads outside the array.\<close>

lemma pitchToMidi_index:
  "pitchToMidi p =
     (if 0 \<le> \<lfloor>round64 (p * 9)\<rfloor> \<and> \<lfloor>round64 (p * 9)\<rfloor> < 10
      then Some (whiteKeys ! nat \<lfloor>round64 (p * 9)\<rfloor>) else None)"
proof (cases "\<bar>round64 (p * 9)\<bar> < 2 ^ 1024")
  case True
  then show ?thesis
    by (simp add: pitchToMidi_def round_binary64_def length_whiteKeys Let_def)
next
  case False
  then have "round64 (p * 9) < 0 \<or> 10 \<le> round64 (p * 9)" by auto
  then have "\<lfloor>round64 (p * 9)\<rfloor> < 0 \<or> 10 \<le> \<lfloor>round64 (p * 9)\<rfloor>"
    by (auto simp: floor_less_iff le_floor_iff)
  then show ?thesis
    using False by (auto simp: pitchToMidi_def round_binary64_def length_whiteKeys Let_def)
qed

lemma round_binary64_product:
  fixes p :: real
  assumes "0 \<le> p" "p \<le> 1"
  shows "round_binary64 (p * 9) = Some (round64 (p * 9))"
proof -
  have "\<bar>round64 (p * 9)\<bar> \<le> 9" using product_bounds[OF assms] by simp
  moreover have "(9::real) < 2 ^ 1024" by simp
  ultimately have "\<bar>round64 (p * 9)\<bar> < 2 ^ 1024" by linarith
  then show ?thesis by (simp add: round_binary64_def)
qed

lemma getPitchFromY_range: "0 \<le> getPitchFromY y \<and> getPitchFromY y \<le> 1"
  by (simp add: getPitchFromY_def split: option.splits)

text \<open>
  The pitch the component hands to the quantiser is clamped, so the quantiser always
  returns a note of the scale for it, never \<^verbatim>\<open>undefined\<close>.
\<close>

lemma currentPitch_range: "0 \<le> currentPitch s \<and> currentPitch s \<le> 1"
  using getPitchFromY_range by (simp add: currentPitch_def)

lemma pitchToMidi_currentPitch_defined:
  "\<exists>n. pitchToMidi (currentPitch s) = Some n \<and> n \<in> set whiteKeys"
proof -
  have b: "0 \<le> \<lfloor>round64 (currentPitch s * 9)\<rfloor> \<and> \<lfloor>round64 (currentPitch s * 9)\<rfloor> \<le> 9"
    using pitch_index_bounds[of "currentPitch s"] currentPitch_range[of s] by simp
  then have "nat \<lfloor>round64 (currentPitch s * 9)\<rfloor> < 10"
    by linarith
  then have "nat \<lfloor>round64 (currentPitch s * 9)\<rfloor> < length whiteKeys"
    by (simp only: length_whiteKeys)
  then have "whiteKeys ! nat \<lfloor>round64 (currentPitch s * 9)\<rfloor> \<in> set whiteKeys"
    by (rule nth_mem)
  then show ?thesis
    using b by (simp add: pitchToMidi_index)
qed

text \<open>Values of the quantiser used in the examples.\<close>

lemma pitchToMidi_zero: "pitchToMidi 0 = Some 60"
  by (simp add: pitchToMidi_index round64_zero whiteKeys_eq)

lemma pitchToMidi_one: "pitchToMidi 1 = Some 76"
  using round64_int[of 9] by (simp add: pitchToMidi_index whiteKeys_eq)

lemma pitchToMidi_half: "pitchToMidi (1 / 2) = Some 67"
proof -
  have "round64 (9 / 2) = 9 / 2"
    using round64_dyadic[of 9 1] by simp
  then have "round64 (1 / 2 * 9) = 9 / 2" by simp
  then show ?thesis
    by (simp only: pitchToMidi_index) (simp add: whiteKeys_eq)
qed

lemma pitchToMidi_ninth: "pitchToMidi (8006399337547548 / 2 ^ 56) = Some 62"
  by (simp only: pitchToMidi_index round64_ninth_times_nine) (simp add: whiteKeys_eq)

section \<open>Pitch quantisation: claims C1, C2, C3\<close>

text \<open>
  C1, as the code has it. The scale that \<^const>\<open>pitchToMidi\<close> builds has ten natural notes,
  C4 (60) to E5 (76), in strictly ascending order. For every pitch position in \<open>[0, 1]\<close>
  the note returned is the one at the index \<open>\<lfloor>pitch \<times> 9\<rfloor>\<close>, the product being the
  double-precision one: the index is the floor of the exact product, or one more when
  rounding carries the product up to the next integer, and lies in \<open>[0, 9]\<close> without
  any clamp.
\<close>

theorem pitchToMidi_selects_from_ten_white_keys:
  assumes "0 \<le> p" "p \<le> 1"
  shows "whiteKeys = [60, 62, 64, 65, 67, 69, 71, 72, 74, 76] \<and> sorted_wrt (<) whiteKeys \<and>
         (\<exists>product. round_binary64 (p * 9) = Some product \<and>
            \<lfloor>p * 9\<rfloor> \<le> \<lfloor>product\<rfloor> \<and> \<lfloor>product\<rfloor> \<le> \<lfloor>p * 9\<rfloor> + 1 \<and>
            0 \<le> \<lfloor>product\<rfloor> \<and> \<lfloor>product\<rfloor> \<le> 9 \<and>
            pitchToMidi p = Some (whiteKeys ! nat \<lfloor>product\<rfloor>))"
proof -
  have r: "0 \<le> p * 9" "p * 9 \<le> 9" using assms by simp_all
  have b: "0 \<le> \<lfloor>round64 (p * 9)\<rfloor> \<and> \<lfloor>round64 (p * 9)\<rfloor> \<le> 9"
    by (rule pitch_index_bounds[OF assms])
  have m: "pitchToMidi p = Some (whiteKeys ! nat \<lfloor>round64 (p * 9)\<rfloor>)"
    using b by (simp add: pitchToMidi_index)
  show ?thesis
    using round_binary64_product[OF assms] floor_round64_between[OF r] b m
      whiteKeys_eq whiteKeys_sorted
    by blast
qed

text \<open>
  Two positions: 1/2, whose product 4.5 is exact (index 4, G4), and the double written
  0.1111111111111111, whose exact product is below 1 and whose double product is 1
  (index 1, D4).
\<close>

theorem pitchToMidi_selects_from_ten_white_keys_witness:
  "(0::real) \<le> 1 / 2 \<and> (1::real) / 2 \<le> 1 \<and> pitchToMidi (1 / 2) = Some 67 \<and>
   (0::real) \<le> 8006399337547548 / 2 ^ 56 \<and> (8006399337547548::real) / 2 ^ 56 \<le> 1 \<and>
   \<lfloor>(8006399337547548::real) / 2 ^ 56 * 9\<rfloor> = 0 \<and>
   round64 (8006399337547548 / 2 ^ 56 * 9) = 1 \<and>
   pitchToMidi (8006399337547548 / 2 ^ 56) = Some 62"
proof -
  have a: "\<lfloor>(8006399337547548::real) / 2 ^ 56 * 9\<rfloor> = 0" by simp
  have b: "(0::real) \<le> 8006399337547548 / 2 ^ 56" "(8006399337547548::real) / 2 ^ 56 \<le> 1"
    by simp_all
  show ?thesis
    using pitchToMidi_selects_from_ten_white_keys[of "1 / 2"]
      pitchToMidi_selects_from_ten_white_keys[OF b]
      a b pitchToMidi_half pitchToMidi_ninth round64_ninth_times_nine
    by simp
qed

text \<open>
  C1, as the specification states it (fifteen notes, index \<open>\<lfloor>pitch \<times> 14\<rfloor>\<close>), fails on the
  code: at pitch position 1/2 the code returns G4 (67) where the fifteen-note quantiser
  gives C5 (72), and the code's scale has ten notes, not fifteen.
\<close>

theorem pitchToMidi_not_fifteen_note_quantiser:
  "pitchToMidi (1 / 2) = Some 67 \<and> spec_pitchToMidi (1 / 2) = 72 \<and>
   length whiteKeys = 10 \<and> length spec_scale = 15"
  by (simp add: pitchToMidi_half length_whiteKeys spec_pitchToMidi_def spec_scale_def)

text \<open>
  C2. For pitch positions \<open>0 \<le> p \<le> q \<le> 1\<close> the quantiser returns a note for both, the
  note for \<open>p\<close> is not above the note for \<open>q\<close>, and both notes belong to the scale of the
  code, which is part of the fifteen-note diatonic range of the specification.
\<close>

theorem pitchToMidi_monotone_in_range:
  assumes "0 \<le> p" "p \<le> q" "q \<le> 1"
  shows "\<exists>m n. pitchToMidi p = Some m \<and> pitchToMidi q = Some n \<and> m \<le> n \<and>
           m \<in> set whiteKeys \<and> n \<in> set whiteKeys \<and>
           m \<in> set spec_scale \<and> n \<in> set spec_scale"
proof -
  have bp: "0 \<le> \<lfloor>round64 (p * 9)\<rfloor> \<and> \<lfloor>round64 (p * 9)\<rfloor> \<le> 9"
    using pitch_index_bounds[of p] assms by simp
  have bq: "0 \<le> \<lfloor>round64 (q * 9)\<rfloor> \<and> \<lfloor>round64 (q * 9)\<rfloor> \<le> 9"
    using pitch_index_bounds[of q] assms by simp
  have "round64 (p * 9) \<le> round64 (q * 9)"
    using assms by (intro round64_mono) simp_all
  then have le: "\<lfloor>round64 (p * 9)\<rfloor> \<le> \<lfloor>round64 (q * 9)\<rfloor>"
    by (rule floor_mono)
  let ?i = "nat \<lfloor>round64 (p * 9)\<rfloor>" and ?j = "nat \<lfloor>round64 (q * 9)\<rfloor>"
  have ij: "?i \<le> ?j" "?j < 10" "?i < 10"
    using bp bq le by linarith+
  have P: "pitchToMidi p = Some (whiteKeys ! ?i)"
    using bp by (simp add: pitchToMidi_index)
  have Q: "pitchToMidi q = Some (whiteKeys ! ?j)"
    using bq by (simp add: pitchToMidi_index)
  have mem: "whiteKeys ! ?i \<in> set whiteKeys" "whiteKeys ! ?j \<in> set whiteKeys"
    using ij by (simp_all add: length_whiteKeys)
  show ?thesis
    using P Q whiteKeys_mono[OF ij(1) ij(2)] mem whiteKeys_subset_spec_scale by auto
qed

theorem pitchToMidi_monotone_in_range_witness:
  "(0::real) \<le> 1 / 4 \<and> (1::real) / 4 \<le> 3 / 4 \<and> (3::real) / 4 \<le> 1 \<and>
   (\<exists>m n. pitchToMidi (1 / 4) = Some m \<and> pitchToMidi (3 / 4) = Some n \<and> m \<le> n \<and>
           m \<in> set whiteKeys \<and> n \<in> set whiteKeys \<and>
           m \<in> set spec_scale \<and> n \<in> set spec_scale)"
  using pitchToMidi_monotone_in_range[of "1 / 4" "3 / 4"] by simp

text \<open>
  C3, as the code has it. Pitch position 0 gives the lowest note of the scale, C4 = 60,
  which is also the lowest note of the fifteen-note range of the specification. Pitch
  position 1 gives the highest note of the ten-note scale of the code, E5 = 76.
\<close>

theorem pitchToMidi_endpoints:
  "pitchToMidi 0 = Some (Min (set whiteKeys)) \<and> pitchToMidi 1 = Some (Max (set whiteKeys)) \<and>
   Min (set whiteKeys) = hd whiteKeys \<and> Max (set whiteKeys) = last whiteKeys \<and>
   pitchToMidi 0 = Some 60 \<and> pitchToMidi 1 = Some 76 \<and>
   pitchToMidi 0 = Some (Min (set spec_scale))"
  by (simp add: pitchToMidi_zero pitchToMidi_one whiteKeys_eq spec_scale_def)

text \<open>
  C3, as the specification states it, fails on the code at pitch position 1: the
  highest note of the fifteen-note range is C6 = 84, which the fifteen-note quantiser
  selects there, and the code returns E5 = 76.
\<close>

theorem pitchToMidi_top_is_not_top_of_range:
  "pitchToMidi 1 = Some 76 \<and> Max (set spec_scale) = 84 \<and> spec_pitchToMidi 1 = 84"
  by (simp add: pitchToMidi_one spec_scale_def spec_pitchToMidi_def)

section \<open>Gesture classification and role resolution: claims C4, C5\<close>

lemma valid_finger_iff: "valid_finger f \<longleftrightarrow> finger_state_of f \<noteq> Missing"
  by (cases f rule: finger_state_of.cases) (auto simp: valid_finger_def)

lemma extended_iff: "valid_finger f \<and> tip_above f \<longleftrightarrow> finger_state_of f = Extended"
  by (cases f rule: finger_state_of.cases) (auto simp: valid_finger_def tip_above_def)

lemma folded_iff: "valid_finger f \<and> tip_below f \<longleftrightarrow> finger_state_of f = Folded"
  by (cases f rule: finger_state_of.cases) (auto simp: valid_finger_def tip_below_def)

lemma filter_valid: "filter valid_finger fs = filter (\<lambda>f. finger_state_of f \<noteq> Missing) fs"
  by (rule filter_cong) (simp_all add: valid_finger_iff)

lemma filter_extended:
  "filter tip_above (filter valid_finger fs) = filter (\<lambda>f. finger_state_of f = Extended) fs"
  unfolding filter_filter by (rule filter_cong) (simp_all add: extended_iff)

lemma filter_folded:
  "filter tip_below (filter valid_finger fs) = filter (\<lambda>f. finger_state_of f = Folded) fs"
  unfolding filter_filter by (rule filter_cong) (simp_all add: folded_iff)

text \<open>On an array of at least 21 entries the code computes the decision on the counts.\<close>

lemma detectVowel_counts:
  assumes "21 \<le> length lms"
  shows "detectVowel (Some lms) =
     (if count_valid lms < 3 then VowelNONE
      else if count_state Extended lms \<ge> 3 then VowelA
      else if count_state Folded lms \<ge> 3 then VowelO
      else VowelNONE)"
proof -
  have "\<not> length lms < 21" using assms by simp
  then show ?thesis
    unfolding detectVowel_def Let_def count_valid_def count_state_def
      filter_extended filter_folded
    by (simp only: filter_valid option.case if_False)
qed

text \<open>An array shorter than 21, or no array, is never classified.\<close>

lemma detectVowel_short: "length lms < 21 \<Longrightarrow> detectVowel (Some lms) = VowelNONE"
  by (simp add: detectVowel_def)

lemma detectVowel_null: "detectVowel None = VowelNONE"
  by (simp add: detectVowel_def)

lemma filter_length_mono:
  "(\<And>x. P x \<Longrightarrow> Q x) \<Longrightarrow> length (filter P xs) \<le> length (filter Q xs)"
  by (induction xs) auto

lemma count_state_le_valid: "st \<noteq> Missing \<Longrightarrow> count_state st lms \<le> count_valid lms"
  unfolding count_state_def count_valid_def by (rule filter_length_mono) simp

lemma filter_disjoint_sum:
  "(\<And>x. P x \<Longrightarrow> \<not> Q x) \<Longrightarrow> length (filter P xs) + length (filter Q xs) \<le> length xs"
  by (induction xs) auto

lemma extended_folded_le_4: "count_state Extended lms + count_state Folded lms \<le> 4"
proof -
  have "count_state Extended lms + count_state Folded lms \<le> length (fingers_of lms)"
    unfolding count_state_def by (rule filter_disjoint_sum) simp
  then show ?thesis by (simp add: fingers_of_def)
qed

lemma synthetic_hand_length: "length (synthetic_hand a b c d) = 21"
  by (simp add: synthetic_hand_def)

lemma synthetic_hand_fingers:
  "fingers_of (synthetic_hand a b c d) =
     [(Some \<lparr>lm_x = 0.5, lm_y = a\<rparr>, Some \<lparr>lm_x = 0.5, lm_y = 0.5\<rparr>),
      (Some \<lparr>lm_x = 0.5, lm_y = b\<rparr>, Some \<lparr>lm_x = 0.5, lm_y = 0.5\<rparr>),
      (Some \<lparr>lm_x = 0.5, lm_y = c\<rparr>, Some \<lparr>lm_x = 0.5, lm_y = 0.5\<rparr>),
      (Some \<lparr>lm_x = 0.5, lm_y = d\<rparr>, Some \<lparr>lm_x = 0.5, lm_y = 0.5\<rparr>)]"
  by (simp add: fingers_of_def synthetic_hand_def js_nth_def nth_list_update)

text \<open>
  The second copy of the component agrees with the first on a hand whose eight finger
  landmarks are all present, and raises where one is missing.
\<close>

lemma detectVowel_unfiltered_agrees:
  assumes "list_all valid_finger (fingers_of lms)"
  shows "detectVowel_unfiltered (Some lms) = Inr (detectVowel (Some lms))"
proof -
  have "filter valid_finger (fingers_of lms) = fingers_of lms"
    using assms by (simp add: list_all_iff)
  moreover have "length (fingers_of lms) = 4" by (simp add: fingers_of_def)
  ultimately show ?thesis using assms
    by (simp add: detectVowel_unfiltered_def detectVowel_def Let_def)
qed

lemma filter_all_length: "length (filter P xs) = length xs \<Longrightarrow> list_all P xs"
proof (induction xs)
  case Nil
  then show ?case by simp
next
  case (Cons x xs)
  have le: "length (filter P xs) \<le> length xs" by simp
  show ?case
  proof (cases "P x")
    case True
    then show ?thesis using Cons by simp
  next
    case False
    then show ?thesis using Cons.prems le by simp
  qed
qed

lemma all_fingers_valid:
  assumes "count_valid lms = 4"
  shows "list_all valid_finger (fingers_of lms)"
proof -
  have "length (fingers_of lms) = 4" by (simp add: fingers_of_def)
  then have "length (filter valid_finger (fingers_of lms)) = length (fingers_of lms)"
    using assms unfolding count_valid_def filter_valid by simp
  then show ?thesis by (rule filter_all_length)
qed

lemma detectVowel_unfiltered_raises:
  "21 \<le> length lms \<Longrightarrow> \<not> list_all valid_finger (fingers_of lms) \<Longrightarrow>
   detectVowel_unfiltered (Some lms) = Inl TypeError"
  by (simp add: detectVowel_unfiltered_def Let_def)

text \<open>
  C4. On a hand of 21 landmarks, with the four (tip, pip) pairs of index, middle, ring
  and pinky: fewer than 3 valid (non-missing) pairs give NONE; at least 3 extended pairs
  (\<open>tip.y < pip.y\<close>) give A (open); at least 3 folded pairs (\<open>tip.y > pip.y\<close>) give O
  (closed); anything else, a 2/2 split included, gives NONE. The second copy of the
  component returns the same class whenever all four pairs are present.
\<close>

theorem detectVowel_classifies_by_counts:
  assumes "21 \<le> length lms"
  shows "(count_valid lms < 3 \<longrightarrow> detectVowel (Some lms) = VowelNONE) \<and>
         (count_state Extended lms \<ge> 3 \<longrightarrow> detectVowel (Some lms) = VowelA) \<and>
         (count_state Folded lms \<ge> 3 \<longrightarrow> detectVowel (Some lms) = VowelO) \<and>
         (count_state Extended lms < 3 \<and> count_state Folded lms < 3 \<longrightarrow>
            detectVowel (Some lms) = VowelNONE) \<and>
         (count_valid lms = 4 \<longrightarrow>
            detectVowel_unfiltered (Some lms) = Inr (detectVowel (Some lms)))"
proof -
  have e: "count_state Extended lms \<le> count_valid lms"
    by (rule count_state_le_valid) simp
  have f: "count_state Folded lms \<le> count_valid lms"
    by (rule count_state_le_valid) simp
  have g: "count_valid lms = 4 \<longrightarrow>
             detectVowel_unfiltered (Some lms) = Inr (detectVowel (Some lms))"
    using detectVowel_unfiltered_agrees[OF all_fingers_valid] by blast
  have h: "(count_valid lms < 3 \<longrightarrow> detectVowel (Some lms) = VowelNONE) \<and>
         (count_state Extended lms \<ge> 3 \<longrightarrow> detectVowel (Some lms) = VowelA) \<and>
         (count_state Folded lms \<ge> 3 \<longrightarrow> detectVowel (Some lms) = VowelO) \<and>
         (count_state Extended lms < 3 \<and> count_state Folded lms < 3 \<longrightarrow>
            detectVowel (Some lms) = VowelNONE)"
    using e f extended_folded_le_4[of lms] by (simp add: detectVowel_counts[OF assms])
  show ?thesis
    using g h by blast
qed

text \<open>
  The examples of the specification: four extended fingers, four folded fingers, a 2/2
  split, and a hand with two pairs missing.
\<close>

theorem detectVowel_classifies_by_counts_witness:
  "21 \<le> length (synthetic_hand 0.2 0.2 0.2 0.2) \<and>
   count_state Extended (synthetic_hand 0.2 0.2 0.2 0.2) = 4 \<and>
   detectVowel (Some (synthetic_hand 0.2 0.2 0.2 0.2)) = VowelA \<and>
   count_state Folded (synthetic_hand 0.8 0.8 0.8 0.8) = 4 \<and>
   detectVowel (Some (synthetic_hand 0.8 0.8 0.8 0.8)) = VowelO \<and>
   count_state Extended (synthetic_hand 0.2 0.2 0.8 0.8) = 2 \<and>
   count_state Folded (synthetic_hand 0.2 0.2 0.8 0.8) = 2 \<and>
   detectVowel (Some (synthetic_hand 0.2 0.2 0.8 0.8)) = VowelNONE \<and>
   count_valid ((synthetic_hand 0.2 0.2 0.2 0.2)[6 := None, 10 := None]) = 2 \<and>
   detectVowel (Some ((synthetic_hand 0.2 0.2 0.2 0.2)[6 := None, 10 := None])) = VowelNONE \<and>
   count_valid (synthetic_hand 0.2 0.2 0.2 0.2) = 4 \<and>
   detectVowel_unfiltered (Some (synthetic_hand 0.2 0.2 0.2 0.2)) = Inr VowelA"
  using detectVowel_classifies_by_counts[of "synthetic_hand 0.2 0.2 0.2 0.2"]
    detectVowel_classifies_by_counts[of "synthetic_hand 0.8 0.8 0.8 0.8"]
    detectVowel_classifies_by_counts[of "synthetic_hand 0.2 0.2 0.8 0.8"]
    detectVowel_classifies_by_counts[of "(synthetic_hand 0.2 0.2 0.2 0.2)[6 := None, 10 := None]"]
  by (simp add: synthetic_hand_length count_state_def count_valid_def synthetic_hand_fingers
        fingers_of_def js_nth_def synthetic_hand_def nth_list_update)

text \<open>Facts about the iteration over the hands of a frame.\<close>

lemma roles_exclusive: "isVolumeHand pref l \<Longrightarrow> \<not> isControlHand pref l"
  by (auto simp: isControlHand_def isVolumeHand_def)

lemma store_hand_fst:
  "\<not> (isControlHand pref l \<and> js_nth lms 8 \<noteq> None) \<Longrightarrow>
   fst (store_hand pref l lms acc) = fst acc"
  by (auto simp: store_hand_def split: option.splits)

lemma store_hand_snd:
  "\<not> (isVolumeHand pref l \<and> js_nth lms 8 \<noteq> None) \<Longrightarrow>
   snd (store_hand pref l lms acc) = snd acc"
  by (auto simp: store_hand_def split: option.splits)

lemma store_hand_control:
  assumes "isControlHand pref l" "js_nth lms 8 = Some tip"
  shows "fst (store_hand pref l lms acc) =
           Some \<lparr>hp_x = lm_x tip, hp_y = lm_y tip, hp_detected = True,
                  hp_vowel = detectVowel (Some lms)\<rparr>"
proof -
  have "8 < length lms"
    using assms(2) by (simp add: js_nth_def split: if_splits)
  then show ?thesis
    using assms by (simp add: store_hand_def)
qed

lemma store_hand_volume:
  assumes "isVolumeHand pref l" "js_nth lms 8 = Some tip"
  shows "snd (store_hand pref l lms acc) = Some \<lparr>vh_y = lm_y tip, vh_detected = True\<rparr>"
proof -
  have "8 < length lms"
    using assms(2) by (simp add: js_nth_def split: if_splits)
  then show ?thesis
    using assms roles_exclusive[OF assms(1)] by (simp add: store_hand_def)
qed

text \<open>The iteration throws exactly when some hand has a missing entry.\<close>

lemma forEach_hand_throws:
  "\<not> list_all drawable hands \<Longrightarrow> forEach_hand pref labels k hands acc = Inl TypeError"
  by (induction hands arbitrary: k acc) auto

lemma forEach_hand_completes:
  "list_all drawable hands \<Longrightarrow> \<exists>acc'. forEach_hand pref labels k hands acc = Inr acc'"
  by (induction hands arbitrary: k acc) auto

lemma forEach_hand_fst:
  assumes "list_all drawable hands"
    and "\<forall>i<length hands. \<not> (isControlHand pref (handedness_of labels (k + i)) \<and>
                               js_nth (hands ! i) 8 \<noteq> None)"
  shows "\<exists>acc'. forEach_hand pref labels k hands acc = Inr acc' \<and> fst acc' = fst acc"
  using assms
proof (induction hands arbitrary: k acc)
  case Nil
  then show ?case by simp
next
  case (Cons lms rest)
  have dr: "drawable lms" "list_all drawable rest"
    using Cons.prems(1) by simp_all
  have head: "\<not> (isControlHand pref (handedness_of labels k) \<and> js_nth lms 8 \<noteq> None)"
    using Cons.prems(2)[rule_format, of 0] by simp
  have tail: "\<forall>i<length rest. \<not> (isControlHand pref (handedness_of labels (Suc k + i)) \<and>
                                  js_nth (rest ! i) 8 \<noteq> None)"
    using Cons.prems(2)[rule_format, of "Suc i" for i] by simp
  obtain acc' where a:
    "forEach_hand pref labels (Suc k) rest (store_hand pref (handedness_of labels k) lms acc)
       = Inr acc'"
    "fst acc' = fst (store_hand pref (handedness_of labels k) lms acc)"
    using Cons.IH[OF dr(2) tail] by blast
  show ?case
    using a store_hand_fst[OF head, of acc] dr(1) by simp
qed

lemma forEach_hand_snd:
  assumes "list_all drawable hands"
    and "\<forall>i<length hands. \<not> (isVolumeHand pref (handedness_of labels (k + i)) \<and>
                               js_nth (hands ! i) 8 \<noteq> None)"
  shows "\<exists>acc'. forEach_hand pref labels k hands acc = Inr acc' \<and> snd acc' = snd acc"
  using assms
proof (induction hands arbitrary: k acc)
  case Nil
  then show ?case by simp
next
  case (Cons lms rest)
  have dr: "drawable lms" "list_all drawable rest"
    using Cons.prems(1) by simp_all
  have head: "\<not> (isVolumeHand pref (handedness_of labels k) \<and> js_nth lms 8 \<noteq> None)"
    using Cons.prems(2)[rule_format, of 0] by simp
  have tail: "\<forall>i<length rest. \<not> (isVolumeHand pref (handedness_of labels (Suc k + i)) \<and>
                                  js_nth (rest ! i) 8 \<noteq> None)"
    using Cons.prems(2)[rule_format, of "Suc i" for i] by simp
  obtain acc' where a:
    "forEach_hand pref labels (Suc k) rest (store_hand pref (handedness_of labels k) lms acc)
       = Inr acc'"
    "snd acc' = snd (store_hand pref (handedness_of labels k) lms acc)"
    using Cons.IH[OF dr(2) tail] by blast
  show ?case
    using a store_hand_snd[OF head, of acc] dr(1) by simp
qed

text \<open>
  The control data collected by the iteration is that of the last hand whose own label
  resolves to the control role; likewise for the volume role.
\<close>

lemma forEach_hand_control:
  assumes "list_all drawable hands" "i < length hands" "js_nth (hands ! i) 8 = Some tip"
    and "isControlHand pref (handedness_of labels (k + i))"
    and "\<forall>j<length hands. i < j \<longrightarrow> \<not> isControlHand pref (handedness_of labels (k + j))"
  shows "\<exists>acc'. forEach_hand pref labels k hands acc = Inr acc' \<and>
           fst acc' = Some \<lparr>hp_x = lm_x tip, hp_y = lm_y tip, hp_detected = True,
                             hp_vowel = detectVowel (Some (hands ! i))\<rparr>"
  using assms
proof (induction hands arbitrary: i k acc)
  case Nil
  then show ?case by simp
next
  case (Cons lms rest)
  have dr: "drawable lms" "list_all drawable rest"
    using Cons.prems(1) by simp_all
  show ?case
  proof (cases i)
    case 0
    have tip: "js_nth lms 8 = Some tip" and role: "isControlHand pref (handedness_of labels k)"
      using Cons.prems(3,4) 0 by simp_all
    have later: "\<forall>j<length rest. \<not> (isControlHand pref (handedness_of labels (Suc k + j)) \<and>
                                     js_nth (rest ! j) 8 \<noteq> None)"
      using Cons.prems(5)[rule_format, of "Suc j" for j] 0 by simp
    show ?thesis
      using forEach_hand_fst[OF dr(2) later,
              of "store_hand pref (handedness_of labels k) lms acc"]
        store_hand_control[OF role tip, of acc] dr(1) 0
      by simp
  next
    case (Suc i')
    have 1: "i' < length rest" using Cons.prems(2) Suc by simp
    have 2: "js_nth (rest ! i') 8 = Some tip" using Cons.prems(3) Suc by simp
    have 3: "isControlHand pref (handedness_of labels (Suc k + i'))"
      using Cons.prems(4) Suc by simp
    have 4: "\<forall>j<length rest. i' < j \<longrightarrow> \<not> isControlHand pref (handedness_of labels (Suc k + j))"
      using Cons.prems(5)[rule_format, of "Suc j" for j] Suc by simp
    show ?thesis
      using Cons.IH[OF dr(2) 1 2 3 4] dr(1) Suc by simp
  qed
qed

lemma forEach_hand_volume:
  assumes "list_all drawable hands" "i < length hands" "js_nth (hands ! i) 8 = Some tip"
    and "isVolumeHand pref (handedness_of labels (k + i))"
    and "\<forall>j<length hands. i < j \<longrightarrow> \<not> isVolumeHand pref (handedness_of labels (k + j))"
  shows "\<exists>acc'. forEach_hand pref labels k hands acc = Inr acc' \<and>
           snd acc' = Some \<lparr>vh_y = lm_y tip, vh_detected = True\<rparr>"
  using assms
proof (induction hands arbitrary: i k acc)
  case Nil
  then show ?case by simp
next
  case (Cons lms rest)
  have dr: "drawable lms" "list_all drawable rest"
    using Cons.prems(1) by simp_all
  show ?case
  proof (cases i)
    case 0
    have tip: "js_nth lms 8 = Some tip" and role: "isVolumeHand pref (handedness_of labels k)"
      using Cons.prems(3,4) 0 by simp_all
    have later: "\<forall>j<length rest. \<not> (isVolumeHand pref (handedness_of labels (Suc k + j)) \<and>
                                     js_nth (rest ! j) 8 \<noteq> None)"
      using Cons.prems(5)[rule_format, of "Suc j" for j] 0 by simp
    show ?thesis
      using forEach_hand_snd[OF dr(2) later,
              of "store_hand pref (handedness_of labels k) lms acc"]
        store_hand_volume[OF role tip, of acc] dr(1) 0
      by simp
  next
    case (Suc i')
    have 1: "i' < length rest" using Cons.prems(2) Suc by simp
    have 2: "js_nth (rest ! i') 8 = Some tip" using Cons.prems(3) Suc by simp
    have 3: "isVolumeHand pref (handedness_of labels (Suc k + i'))"
      using Cons.prems(4) Suc by simp
    have 4: "\<forall>j<length rest. i' < j \<longrightarrow> \<not> isVolumeHand pref (handedness_of labels (Suc k + j))"
      using Cons.prems(5)[rule_format, of "Suc j" for j] Suc by simp
    show ?thesis
      using Cons.IH[OF dr(2) 1 2 3 4] dr(1) Suc by simp
  qed
qed

lemma onResults_control:
  assumes "multiHandLandmarks results = Some hands" "list_all drawable hands"
    and "i < length hands" "js_nth (hands ! i) 8 = Some tip"
    and "isControlHand pref (handedness_of (multiHandedness results) i)"
    and "\<forall>j<length hands. i < j \<longrightarrow>
           \<not> isControlHand pref (handedness_of (multiHandedness results) j)"
  shows "\<exists>s'. onResults True pref results s = Inr s' \<and>
           controlHand s' = \<lparr>hp_x = lm_x tip, hp_y = lm_y tip, hp_detected = True,
                              hp_vowel = detectVowel (Some (hands ! i))\<rparr>"
proof -
  obtain h hs where hands: "hands = h # hs"
    using assms(3) by (cases hands) auto
  obtain acc' where
    "forEach_hand pref (multiHandedness results) 0 hands (None, None) = Inr acc'"
    "fst acc' = Some \<lparr>hp_x = lm_x tip, hp_y = lm_y tip, hp_detected = True,
                       hp_vowel = detectVowel (Some (hands ! i))\<rparr>"
    using forEach_hand_control[OF assms(2,3,4), of pref "multiHandedness results" 0 "(None, None)"]
      assms(5,6) by auto
  then show ?thesis
    using assms(1) hands by (simp add: onResults_def)
qed

lemma onResults_volume:
  assumes "multiHandLandmarks results = Some hands" "list_all drawable hands"
    and "i < length hands" "js_nth (hands ! i) 8 = Some tip"
    and "isVolumeHand pref (handedness_of (multiHandedness results) i)"
    and "\<forall>j<length hands. i < j \<longrightarrow>
           \<not> isVolumeHand pref (handedness_of (multiHandedness results) j)"
  shows "\<exists>s'. onResults True pref results s = Inr s' \<and>
           volumeHand s' = \<lparr>vh_y = lm_y tip, vh_detected = True\<rparr>"
proof -
  obtain h hs where hands: "hands = h # hs"
    using assms(3) by (cases hands) auto
  obtain acc' where
    "forEach_hand pref (multiHandedness results) 0 hands (None, None) = Inr acc'"
    "snd acc' = Some \<lparr>vh_y = lm_y tip, vh_detected = True\<rparr>"
    using forEach_hand_volume[OF assms(2,3,4), of pref "multiHandedness results" 0 "(None, None)"]
      assms(5,6) by auto
  then show ?thesis
    using assms(1) hands by (simp add: onResults_def)
qed

text \<open>A frame with a missing landmark entry leaves the state as it was.\<close>

lemma onResults_throws:
  assumes "multiHandLandmarks results = Some hands" "\<not> list_all drawable hands"
  shows "onResults True pref results s = Inl TypeError \<and> frame_update True pref results s = s"
proof -
  obtain h hs where hands: "hands = h # hs"
    using assms(2) by (cases hands) auto
  have "forEach_hand pref (multiHandedness results) 0 hands (None, None) = Inl TypeError"
    using assms(2) by (rule forEach_hand_throws)
  then show ?thesis
    using assms(1) hands by (simp add: onResults_def frame_update_def)
qed

lemma drawable_synthetic_hand: "drawable (synthetic_hand a b c d)"
  by (simp add: drawable_def list_all_length synthetic_hand_def nth_list_update)

lemma synthetic_hand_tip:
  "js_nth (synthetic_hand a b c d) 8 = Some \<lparr>lm_x = 0.5, lm_y = a\<rparr>"
  by (simp add: js_nth_def synthetic_hand_def)

text \<open>
  C5. Role resolution inverts the handedness label: with the control hand configured
  as right, exactly the hands labelled Left are control hands and exactly the hands
  labelled Right are volume hands; with it configured as left, the other way round.
  In a frame whose hands can all be drawn, a hand that carries its index fingertip
  (landmark 8) is resolved by its own label, and if no later hand of the frame has the
  same label, the frame assigns it the role: the control state (position of the
  fingertip, detected, gesture of that hand) or the volume state (height of the
  fingertip, detected) after the frame is that hand's.
\<close>

theorem role_resolution_inverts_handedness:
  assumes "multiHandLandmarks results = Some hands"
    and "list_all drawable hands"
    and "i < length hands"
    and "js_nth (hands ! i) 8 = Some tip"
    and "\<forall>j<length hands. i < j \<longrightarrow>
           handedness_of (multiHandedness results) j \<noteq> handedness_of (multiHandedness results) i"
  shows "(isControlHand (Some PrefRight) l \<longleftrightarrow> l = ''Left'') \<and>
         (isVolumeHand (Some PrefRight) l \<longleftrightarrow> l = ''Right'') \<and>
         (isControlHand (Some PrefLeft) l \<longleftrightarrow> l = ''Right'') \<and>
         (isVolumeHand (Some PrefLeft) l \<longleftrightarrow> l = ''Left'') \<and>
         (handedness_of (multiHandedness results) i = ''Left'' \<longrightarrow>
            (\<exists>s'. onResults True (Some PrefRight) results s = Inr s' \<and>
                  controlHand s' = \<lparr>hp_x = lm_x tip, hp_y = lm_y tip, hp_detected = True,
                                     hp_vowel = detectVowel (Some (hands ! i))\<rparr>)) \<and>
         (handedness_of (multiHandedness results) i = ''Right'' \<longrightarrow>
            (\<exists>s'. onResults True (Some PrefRight) results s = Inr s' \<and>
                  volumeHand s' = \<lparr>vh_y = lm_y tip, vh_detected = True\<rparr>)) \<and>
         (handedness_of (multiHandedness results) i = ''Right'' \<longrightarrow>
            (\<exists>s'. onResults True (Some PrefLeft) results s = Inr s' \<and>
                  controlHand s' = \<lparr>hp_x = lm_x tip, hp_y = lm_y tip, hp_detected = True,
                                     hp_vowel = detectVowel (Some (hands ! i))\<rparr>)) \<and>
         (handedness_of (multiHandedness results) i = ''Left'' \<longrightarrow>
            (\<exists>s'. onResults True (Some PrefLeft) results s = Inr s' \<and>
                  volumeHand s' = \<lparr>vh_y = lm_y tip, vh_detected = True\<rparr>))"
proof -
  let ?label = "handedness_of (multiHandedness results)"
  have roles:
    "(isControlHand (Some PrefRight) l \<longleftrightarrow> l = ''Left'') \<and>
     (isVolumeHand (Some PrefRight) l \<longleftrightarrow> l = ''Right'') \<and>
     (isControlHand (Some PrefLeft) l \<longleftrightarrow> l = ''Right'') \<and>
     (isVolumeHand (Some PrefLeft) l \<longleftrightarrow> l = ''Left'')" for l
    by (simp add: isControlHand_def isVolumeHand_def)
  have cr: "\<exists>s'. onResults True (Some PrefRight) results s = Inr s' \<and>
                  controlHand s' = \<lparr>hp_x = lm_x tip, hp_y = lm_y tip, hp_detected = True,
                                     hp_vowel = detectVowel (Some (hands ! i))\<rparr>"
    if "?label i = ''Left''"
    using onResults_control[OF assms(1-4), of "Some PrefRight" s] assms(5) that roles by auto
  have vr: "\<exists>s'. onResults True (Some PrefRight) results s = Inr s' \<and>
                  volumeHand s' = \<lparr>vh_y = lm_y tip, vh_detected = True\<rparr>"
    if "?label i = ''Right''"
    using onResults_volume[OF assms(1-4), of "Some PrefRight" s] assms(5) that roles by auto
  have cl: "\<exists>s'. onResults True (Some PrefLeft) results s = Inr s' \<and>
                  controlHand s' = \<lparr>hp_x = lm_x tip, hp_y = lm_y tip, hp_detected = True,
                                     hp_vowel = detectVowel (Some (hands ! i))\<rparr>"
    if "?label i = ''Right''"
    using onResults_control[OF assms(1-4), of "Some PrefLeft" s] assms(5) that roles by auto
  have vl: "\<exists>s'. onResults True (Some PrefLeft) results s = Inr s' \<and>
                  volumeHand s' = \<lparr>vh_y = lm_y tip, vh_detected = True\<rparr>"
    if "?label i = ''Left''"
    using onResults_volume[OF assms(1-4), of "Some PrefLeft" s] assms(5) that roles by auto
  show ?thesis
    using roles[of l] cr vr cl vl by blast
qed

text \<open>
  An example with two hands and the control hand configured as right: the first hand,
  labelled Right, becomes the volume hand and the second, labelled Left, becomes the
  control hand, each with its own fingertip.
\<close>

theorem role_resolution_inverts_handedness_witness:
  "multiHandLandmarks two_hand_frame =
     Some [synthetic_hand 0.75 0.75 0.75 0.75, synthetic_hand 0.25 0.25 0.25 0.25] \<and>
   list_all drawable [synthetic_hand 0.75 0.75 0.75 0.75, synthetic_hand 0.25 0.25 0.25 0.25] \<and>
   handedness_of (multiHandedness two_hand_frame) 0 = ''Right'' \<and>
   handedness_of (multiHandedness two_hand_frame) 1 = ''Left'' \<and>
   isControlHand (Some PrefRight) ''Left'' \<and> \<not> isControlHand (Some PrefRight) ''Right'' \<and>
   isVolumeHand (Some PrefRight) ''Right'' \<and> \<not> isVolumeHand (Some PrefRight) ''Left'' \<and>
   onResults True (Some PrefRight) two_hand_frame initial_tracker =
     Inr \<lparr>controlHand = \<lparr>hp_x = 0.5, hp_y = 0.25, hp_detected = True, hp_vowel = VowelA\<rparr>,
          volumeHand = \<lparr>vh_y = 0.75, vh_detected = True\<rparr>\<rparr> \<and>
   onResults True (Some PrefLeft) two_hand_frame initial_tracker =
     Inr \<lparr>controlHand = \<lparr>hp_x = 0.5, hp_y = 0.75, hp_detected = True, hp_vowel = VowelO\<rparr>,
          volumeHand = \<lparr>vh_y = 0.25, vh_detected = True\<rparr>\<rparr>"
proof -
  let ?folded = "synthetic_hand 0.75 0.75 0.75 0.75"
  let ?open = "synthetic_hand 0.25 0.25 0.25 0.25"
  have frame: "multiHandLandmarks two_hand_frame = Some [?folded, ?open]"
    by (simp add: two_hand_frame_def)
  have dr: "list_all drawable [?folded, ?open]"
    by (simp add: drawable_synthetic_hand)
  have labels: "handedness_of (multiHandedness two_hand_frame) 0 = ''Right''"
    "handedness_of (multiHandedness two_hand_frame) 1 = ''Left''"
    by (simp_all add: two_hand_frame_def handedness_of_def)
  have later0: "\<forall>j<length [?folded, ?open]. 0 < j \<longrightarrow>
      handedness_of (multiHandedness two_hand_frame) j \<noteq>
      handedness_of (multiHandedness two_hand_frame) 0"
    by (auto simp: two_hand_frame_def handedness_of_def less_Suc_eq)
  have later1: "\<forall>j<length [?folded, ?open]. 1 < j \<longrightarrow>
      handedness_of (multiHandedness two_hand_frame) j \<noteq>
      handedness_of (multiHandedness two_hand_frame) 1"
    by (auto simp: less_Suc_eq)
  have tip0: "js_nth ([?folded, ?open] ! 0) 8 = Some \<lparr>lm_x = 0.5, lm_y = 0.75\<rparr>"
    by (simp add: synthetic_hand_tip)
  have tip1: "js_nth ([?folded, ?open] ! 1) 8 = Some \<lparr>lm_x = 0.5, lm_y = 0.25\<rparr>"
    by (simp add: synthetic_hand_tip)
  have vo: "detectVowel (Some ?open) = VowelA"
    by (simp add: detectVowel_counts synthetic_hand_length count_state_def count_valid_def
          synthetic_hand_fingers)
  have vf: "detectVowel (Some ?folded) = VowelO"
    by (simp add: detectVowel_counts synthetic_hand_length count_state_def count_valid_def
          synthetic_hand_fingers)
  have h0: "0 < length [?folded, ?open]" and h1: "1 < length [?folded, ?open]"
    by simp_all
  note at0 = role_resolution_inverts_handedness
               [OF frame dr h0 tip0 later0, of "''Left''" initial_tracker]
  note at1 = role_resolution_inverts_handedness
               [OF frame dr h1 tip1 later1, of "''Right''" initial_tracker]
  obtain r where r: "onResults True (Some PrefRight) two_hand_frame initial_tracker = Inr r"
    "volumeHand r = \<lparr>vh_y = 0.75, vh_detected = True\<rparr>"
    using at0 labels by auto
  obtain r' where r': "onResults True (Some PrefRight) two_hand_frame initial_tracker = Inr r'"
    "controlHand r' = \<lparr>hp_x = 0.5, hp_y = 0.25, hp_detected = True, hp_vowel = VowelA\<rparr>"
    using at1 labels vo by auto
  obtain q where q: "onResults True (Some PrefLeft) two_hand_frame initial_tracker = Inr q"
    "controlHand q = \<lparr>hp_x = 0.5, hp_y = 0.75, hp_detected = True, hp_vowel = VowelO\<rparr>"
    using at0 labels vf by auto
  obtain q' where q': "onResults True (Some PrefLeft) two_hand_frame initial_tracker = Inr q'"
    "volumeHand q' = \<lparr>vh_y = 0.25, vh_detected = True\<rparr>"
    using at1 labels by auto
  have "r = r'" using r(1) r'(1) by simp
  then have R: "r = \<lparr>controlHand = \<lparr>hp_x = 0.5, hp_y = 0.25, hp_detected = True,
                                      hp_vowel = VowelA\<rparr>,
                       volumeHand = \<lparr>vh_y = 0.75, vh_detected = True\<rparr>\<rparr>"
    using r(2) r'(2) by (cases r) simp
  have "q = q'" using q(1) q'(1) by simp
  then have Q: "q = \<lparr>controlHand = \<lparr>hp_x = 0.5, hp_y = 0.75, hp_detected = True,
                                      hp_vowel = VowelO\<rparr>,
                       volumeHand = \<lparr>vh_y = 0.25, vh_detected = True\<rparr>\<rparr>"
    using q(2) q'(2) by (cases q) simp
  show ?thesis
    using frame dr labels at0 at1 r(1) q(1) R Q by simp
qed

section \<open>Tracking loss: claim C9\<close>




text \<open>Without the canvas or the video element the callback changes nothing.\<close>

lemma onResults_unmounted: "onResults False pref results s = Inr s"
  by (simp add: onResults_def)





section \<open>Harmonization requests: claim C6\<close>

lemma effect_holding:
  assumes "holds_note n (env, t)"
  shows "harmonization_effect env t s =
           (if can_submit s \<and> Some n \<noteq> lastPlayedNoteRef s then submit n s else s)"
  using assms
  by (auto simp: holds_note_def harmonization_effect_def harmonizeNoteRealTime_def
        can_submit_def submit_def Let_def)

lemma submit_facts:
  "can_submit (submit n s) = can_submit s"
  "lastPlayedNoteRef (submit n s) = Some n"
  "posted (hook (submit n s)) = posted (hook s) @ [n]"
  by (simp_all add: submit_def can_submit_def)

text \<open>
  Over any run of frames that hold the same quantised note, the effect submits once, at
  the first frame, if the hook accepts requests and the note differs from the recorded
  one, and never otherwise.
\<close>

lemma run_frames_holding:
  assumes "list_all (holds_note n) frames"
  shows "run_frames frames s =
           (if frames \<noteq> [] \<and> can_submit s \<and> Some n \<noteq> lastPlayedNoteRef s
            then submit n s else s)"
  using assms
proof (induction frames arbitrary: s)
  case Nil
  then show ?case by simp
next
  case (Cons frame rest)
  obtain env t where frame: "frame = (env, t)" by (cases frame)
  have h: "holds_note n (env, t)" and r: "list_all (holds_note n) rest"
    using Cons.prems frame by simp_all
  show ?case
    unfolding frame run_frames.simps effect_holding[OF h] Cons.IH[OF r]
    by (simp add: submit_facts)
qed

text \<open>
  Between two renders React runs the body of the effect or nothing, so what holds of
  every run of the body over a sequence of frames bounds what the renders do.
\<close>

lemma harmonization_render_cases:
  "harmonization_render env prev prevReady t s = harmonization_effect env t s \<or>
   harmonization_render env prev prevReady t s = s"
  by (simp add: harmonization_render_def)

lemma harmonization_render_holding:
  assumes "holds_note n (env, t)"
  shows "harmonization_render env prev prevReady t s = s \<or>
         (can_submit s \<and> Some n \<noteq> lastPlayedNoteRef s \<and>
          harmonization_render env prev prevReady t s = submit n s)"
  using harmonization_render_cases[of env prev prevReady t s] effect_holding[OF assms, of s]
  by (auto split: if_splits)

lemma on_notes_message_lastPlayedNoteRef:
  "lastPlayedNoteRef (on_notes_message env notes s) = lastPlayedNoteRef s"
  by (simp add: on_notes_message_def playHarmony_effect_def Let_def split: option.splits)

text \<open>
  C6. One run of the harmonization effect posts a request only if the quantised note
  differs from the last-submitted note, and then posts exactly that note and records it
  in the same step; the later arrival of a response records nothing. Over consecutive
  frames that hold the same quantised note at most one request is posted, and none when
  that note is already the recorded one. A frame without a detected control hand, or
  with gesture NONE, clears the record and posts nothing.
\<close>

theorem harmonization_requests_deduplicated:
  "(posted (hook (harmonization_effect env t s)) \<noteq> posted (hook s) \<longrightarrow>
      Some (pitchToMidi (currentPitch t)) \<noteq> lastPlayedNoteRef s \<and>
      posted (hook (harmonization_effect env t s)) =
        posted (hook s) @ [pitchToMidi (currentPitch t)] \<and>
      lastPlayedNoteRef (harmonization_effect env t s) = Some (pitchToMidi (currentPitch t))) \<and>
   lastPlayedNoteRef (on_notes_message env notes s) = lastPlayedNoteRef s \<and>
   (list_all (holds_note n) frames \<longrightarrow>
      posted (hook (run_frames frames s)) =
        posted (hook s) @
          (if frames \<noteq> [] \<and> can_submit s \<and> Some n \<noteq> lastPlayedNoteRef s then [n] else [])) \<and>
   (list_all (holds_note n) frames \<and> lastPlayedNoteRef s = Some n \<longrightarrow>
      run_frames frames s = s) \<and>
   (\<not> hp_detected (controlHand t) \<or> hp_vowel (controlHand t) = VowelNONE \<longrightarrow>
      lastPlayedNoteRef (harmonization_effect env t s) = None \<and>
      posted (hook (harmonization_effect env t s)) = posted (hook s))"
proof -
  have 1: "posted (hook (harmonization_effect env t s)) \<noteq> posted (hook s) \<longrightarrow>
      Some (pitchToMidi (currentPitch t)) \<noteq> lastPlayedNoteRef s \<and>
      posted (hook (harmonization_effect env t s)) =
        posted (hook s) @ [pitchToMidi (currentPitch t)] \<and>
      lastPlayedNoteRef (harmonization_effect env t s) = Some (pitchToMidi (currentPitch t))"
    by (auto simp: harmonization_effect_def harmonizeNoteRealTime_def Let_def
          split: if_splits)
  have 2: "list_all (holds_note n) frames \<longrightarrow>
      posted (hook (run_frames frames s)) =
        posted (hook s) @
          (if frames \<noteq> [] \<and> can_submit s \<and> Some n \<noteq> lastPlayedNoteRef s then [n] else [])"
    by (simp add: run_frames_holding submit_facts)
  have 3: "list_all (holds_note n) frames \<and> lastPlayedNoteRef s = Some n \<longrightarrow>
      run_frames frames s = s"
    by (auto simp: run_frames_holding)
  have 4: "\<not> hp_detected (controlHand t) \<or> hp_vowel (controlHand t) = VowelNONE \<longrightarrow>
      lastPlayedNoteRef (harmonization_effect env t s) = None \<and>
      posted (hook (harmonization_effect env t s)) = posted (hook s)"
    by (auto simp: harmonization_effect_def Let_def)
  show ?thesis
    using 1 2 3 4 on_notes_message_lastPlayedNoteRef[of env "notes" s] by blast
qed

text \<open>
  An example: the control hand held at the bottom of the image with an open palm for
  three frames posts the lowest note (60) once; a frame without hands then clears the
  record.
\<close>

theorem harmonization_requests_deduplicated_witness:
  "list_all (holds_note (Some 60))
     [(env_at 1, tracked_state), (env_at 2, tracked_state), (env_at 3, tracked_state)] \<and>
   posted (hook (run_frames
     [(env_at 1, tracked_state), (env_at 2, tracked_state), (env_at 3, tracked_state)]
     fresh_session)) = [Some 60] \<and>
   posted (hook (harmonization_effect (env_at 1) tracked_state fresh_session)) = [Some 60] \<and>
   lastPlayedNoteRef (harmonization_effect (env_at 1) tracked_state fresh_session)
     = Some (Some 60) \<and>
   run_frames [(env_at 2, tracked_state), (env_at 3, tracked_state)]
     (harmonization_effect (env_at 1) tracked_state fresh_session)
     = harmonization_effect (env_at 1) tracked_state fresh_session \<and>
   \<not> hp_detected (controlHand (frame_update True (Some PrefRight) empty_frame tracked_state)) \<and>
   lastPlayedNoteRef (harmonization_effect (env_at 4)
     (frame_update True (Some PrefRight) empty_frame tracked_state)
     (harmonization_effect (env_at 1) tracked_state fresh_session)) = None"
proof -
  have q: "pitchToMidi (currentPitch tracked_state) = Some 60"
    by (simp add: currentPitch_def tracked_state_def getPitchFromY_def round_binary64_zero
          pitchToMidi_zero)
  have h: "holds_note (Some 60) (env, tracked_state)" for env
    using q by (simp add: holds_note_def) (simp add: tracked_state_def)
  have f: "can_submit fresh_session" "lastPlayedNoteRef fresh_session = None"
    "posted (hook fresh_session) = []"
    by (simp_all add: can_submit_def fresh_session_def ready_hook_def)
  have first: "harmonization_effect (env_at 1) tracked_state fresh_session
                 = submit (Some 60) fresh_session"
    using effect_holding[OF h, of "env_at 1" fresh_session] f by simp
  have lost: "\<not> hp_detected (controlHand (frame_update True (Some PrefRight) empty_frame tracked_state))"
    by (simp add: frame_update_def onResults_def empty_frame_def control_lost_def)
  show ?thesis
    using harmonization_requests_deduplicated
            [of "env_at 1" tracked_state fresh_session "[]" "Some 60"
                "[(env_at 1, tracked_state), (env_at 2, tracked_state), (env_at 3, tracked_state)]"]
          harmonization_requests_deduplicated
            [of "env_at 4" "frame_update True (Some PrefRight) empty_frame tracked_state"
                "submit (Some 60) fresh_session" "[]" "Some 60"
                "[(env_at 2, tracked_state), (env_at 3, tracked_state)]"]
          h f lost
    by (simp add: first submit_facts)
qed

section \<open>The voice set of the engine: claim C7\<close>

lemma stopAll_voices: "currentVoices (stopAll env e) = []"
  by (simp add: stopAll_def)

lemma stopAll_released:
  "releasedVoices (stopAll env e) =
     releasedVoices e @ map (voice_stop env \<circ> snd) (currentVoices e)"
  by (simp add: stopAll_def comp_def split_def)

lemma initialize_voices: "currentVoices (snd (initialize env e)) = currentVoices e"
  by (simp add: initialize_def Let_def)

lemma initialize_released: "releasedVoices (snd (initialize env e)) = releasedVoices e"
  by (simp add: initialize_def Let_def)

text \<open>A rejected \<^const>\<open>playChord\<close> leaves the voices as they were.\<close>

lemma playChord_failure:
  "fst (playChord env s a t b e) \<noteq> None \<Longrightarrow>
   currentVoices (snd (playChord env s a t b e)) = currentVoices e"
  by (auto simp: playChord_def Let_def initialize_voices
        split: prod.splits option.splits if_splits)
     (metis initialize_voices snd_conv)+

lemma playChord_success_voices:
  "fst (playChord env s a t b e) = None \<Longrightarrow>
   currentVoices (snd (playChord env s a t b e)) =
     [(''soprano'', voice_start env (new_VocalVoice env s ''soprano'')),
      (''alto'', voice_start env (new_VocalVoice env a ''alto'')),
      (''tenor'', voice_start env (new_VocalVoice env t ''tenor'')),
      (''bass'', voice_start env (new_VocalVoice env b ''bass''))]"
  by (auto simp: playChord_def Let_def stopAll_def split: prod.splits option.splits if_splits)

lemma playChord_success_released:
  "fst (playChord env s a t b e) = None \<Longrightarrow>
   releasedVoices (snd (playChord env s a t b e)) =
     releasedVoices e @ map (voice_stop env \<circ> snd) (currentVoices e)"
  by (auto simp: playChord_def Let_def stopAll_released initialize_voices initialize_released
        split: prod.splits option.splits if_splits)
     (metis initialize_voices initialize_released snd_conv)+

text \<open>
  \<^const>\<open>playChord\<close> completes when the engine is initialised already, or when the audio
  context can be created and resumed.
\<close>

lemma playChord_ok:
  "isInitialized e \<or> (contextAvailable env \<and> resumeSucceeds env) \<Longrightarrow>
   fst (playChord env s a t b e) = None"
  by (auto simp: playChord_def Let_def initialize_def
        split: prod.splits option.splits if_splits)

lemma playChord_voices_ok:
  assumes "voices_ok e"
  shows "voices_ok (snd (playChord env s a t b e))"
proof (cases "fst (playChord env s a t b e)")
  case None
  then show ?thesis
    by (simp add: voices_ok_def voice_keys_def satb_def playChord_success_voices)
next
  case (Some err)
  then show ?thesis
    using playChord_failure[of env s a t b e] assms by (simp add: voices_ok_def voice_keys_def)
qed

lemma setMasterVolume_voices: "currentVoices (setMasterVolume env volume e) = currentVoices e"
  by (simp add: setMasterVolume_def Let_def split: option.splits)

lemma engine_step_voices_ok:
  assumes "voices_ok e"
  shows "voices_ok (engine_step c e)"
proof (cases c)
  case (PlayChord env s a t b)
  then show ?thesis using playChord_voices_ok[OF assms] by simp
next
  case (StopAll env)
  then show ?thesis by (simp add: voices_ok_def voice_keys_def stopAll_voices)
next
  case (SetMasterVolume env volume)
  then show ?thesis
    using assms by (simp add: voices_ok_def voice_keys_def setMasterVolume_voices)
qed

lemma engine_run_voices_ok: "voices_ok e \<Longrightarrow> voices_ok (engine_run cs e)"
  by (induction cs arbitrary: e) (auto simp: engine_step_voices_ok)

lemma voice_stop_fades:
  "gainNode (voice_stop env v) = gainNode v @
       [CancelScheduledValues (currentTime env),
        SetValueAtTime (voiceGainValue env (vv_voiceType v)) (currentTime env),
        LinearRampToValueAtTime 0 (currentTime env + 0.1)] \<and>
   osc_stop (oscillator1 (voice_stop env v)) = Some (currentTime env + 0.1) \<and>
   osc_stop (oscillator2 (voice_stop env v)) = Some (currentTime env + 0.1)"
  by (simp add: voice_stop_def Let_def)

lemma started_voice:
  "vv_frequency (voice_start env (new_VocalVoice env m k)) = midiToFrequency m \<and>
   osc_start (oscillator1 (voice_start env (new_VocalVoice env m k))) = Some (currentTime env) \<and>
   osc_start (oscillator2 (voice_start env (new_VocalVoice env m k))) = Some (currentTime env) \<and>
   osc_stop (oscillator1 (voice_start env (new_VocalVoice env m k))) = None \<and>
   osc_stop (oscillator2 (voice_start env (new_VocalVoice env m k))) = None"
  by (simp add: voice_start_def new_VocalVoice_def Let_def)

text \<open>
  C7. After any sequence of calls on a new engine the voice map is empty or holds
  exactly the four keys soprano, alto, tenor, bass, so it has 0 or 4 voices.
  \<^const>\<open>stopAll\<close> leaves no voice and hands every current voice to its fade-out. A
  \<^const>\<open>playChord\<close> that completes leaves exactly four voices, one per part, tuned to the
  four notes and started at the current audio time, after handing every previous voice
  to its fade-out. The fade-out holds the gain at its current value, ramps it linearly to
  0 over 0.1 s and stops the oscillators only at the end of that ramp.
\<close>

theorem engine_has_zero_or_four_voices:
  "(voice_keys (engine_run calls new_engine) = [] \<or>
    voice_keys (engine_run calls new_engine) = satb) \<and>
   length (currentVoices (engine_run calls new_engine)) \<in> {0, 4} \<and>
   currentVoices (stopAll env e) = [] \<and>
   releasedVoices (stopAll env e) =
     releasedVoices e @ map (voice_stop env \<circ> snd) (currentVoices e) \<and>
   (isInitialized e \<or> (contextAvailable env \<and> resumeSucceeds env) \<longrightarrow>
      fst (playChord env s a t b e) = None \<and>
      currentVoices (snd (playChord env s a t b e)) =
        [(''soprano'', voice_start env (new_VocalVoice env s ''soprano'')),
         (''alto'', voice_start env (new_VocalVoice env a ''alto'')),
         (''tenor'', voice_start env (new_VocalVoice env t ''tenor'')),
         (''bass'', voice_start env (new_VocalVoice env b ''bass''))] \<and>
      releasedVoices (snd (playChord env s a t b e)) =
        releasedVoices e @ map (voice_stop env \<circ> snd) (currentVoices e)) \<and>
   vv_frequency (voice_start env (new_VocalVoice env m k)) = midiToFrequency m \<and>
   osc_start (oscillator1 (voice_start env (new_VocalVoice env m k))) = Some (currentTime env) \<and>
   osc_start (oscillator2 (voice_start env (new_VocalVoice env m k))) = Some (currentTime env) \<and>
   gainNode (voice_stop env v) = gainNode v @
       [CancelScheduledValues (currentTime env),
        SetValueAtTime (voiceGainValue env (vv_voiceType v)) (currentTime env),
        LinearRampToValueAtTime 0 (currentTime env + 0.1)] \<and>
   osc_stop (oscillator1 (voice_stop env v)) = Some (currentTime env + 0.1) \<and>
   osc_stop (oscillator2 (voice_stop env v)) = Some (currentTime env + 0.1)"
proof -
  have inv: "voices_ok (engine_run calls new_engine)"
    by (rule engine_run_voices_ok) (simp add: voices_ok_def voice_keys_def new_engine_def)
  then have keys: "voice_keys (engine_run calls new_engine) = [] \<or>
                   voice_keys (engine_run calls new_engine) = satb"
    by (simp add: voices_ok_def)
  have "length (currentVoices (engine_run calls new_engine)) =
        length (voice_keys (engine_run calls new_engine))"
    by (simp add: voice_keys_def)
  then have len: "length (currentVoices (engine_run calls new_engine)) \<in> {0, 4}"
    using keys by (auto simp: satb_def)
  show ?thesis
    using keys len playChord_ok[of e env s a t b] playChord_success_voices[of env s a t b e]
      playChord_success_released[of env s a t b e] voice_stop_fades[of env v]
      started_voice[of env m k]
    by (simp add: stopAll_voices stopAll_released)
qed

text \<open>
  An example: the chord 72, 67, 64, 60 on a running engine gives the four parts; a
  second chord one second later releases those four with a fade ending at 2.1; silence
  leaves none.
\<close>

theorem engine_has_zero_or_four_voices_witness:
  "isInitialized running_engine \<and>
   fst (playChord (env_at 1) 72 67 64 60 running_engine) = None \<and>
   voice_keys (snd (playChord (env_at 1) 72 67 64 60 running_engine)) = satb \<and>
   length (releasedVoices (snd (playChord (env_at 2) 74 67 65 59
             (snd (playChord (env_at 1) 72 67 64 60 running_engine))))) = 4 \<and>
   voice_keys (snd (playChord (env_at 2) 74 67 65 59
             (snd (playChord (env_at 1) 72 67 64 60 running_engine)))) = satb \<and>
   osc_stop (oscillator1 (voice_stop (env_at 2)
      (voice_start (env_at 1) (new_VocalVoice (env_at 1) 72 ''soprano'')))) = Some 2.1 \<and>
   voice_keys (engine_run [PlayChord (env_at 1) 72 67 64 60, StopAll (env_at 2)] new_engine) = []"
proof -
  have i: "isInitialized running_engine"
    by (simp add: running_engine_def initialize_def new_engine_def env_at_def)
  have first: "fst (playChord (env_at 1) 72 67 64 60 running_engine) = None"
    using playChord_ok[of running_engine] i by simp
  have i2: "isInitialized (snd (playChord (env_at 1) 72 67 64 60 running_engine))"
    using i by (simp add: playChord_def Let_def stopAll_def)
  have r0: "releasedVoices running_engine = []" "currentVoices running_engine = []"
    by (simp_all add: running_engine_def initialize_def new_engine_def env_at_def)
  have t: "currentTime (env_at 2) = 2"
    by (simp add: env_at_def)
  show ?thesis
    using engine_has_zero_or_four_voices
            [of "[PlayChord (env_at 1) 72 67 64 60, StopAll (env_at 2)]" "env_at 1"
                running_engine 72 67 64 60 72 "''soprano''"
                "voice_start (env_at 1) (new_VocalVoice (env_at 1) 72 ''soprano'')"]
          engine_has_zero_or_four_voices
            [of "[]" "env_at 2" "snd (playChord (env_at 1) 72 67 64 60 running_engine)"
                74 67 65 59 72 "''soprano''"
                "voice_start (env_at 1) (new_VocalVoice (env_at 1) 72 ''soprano'')"]
          i i2 r0 t
    by (simp add: voice_keys_def satb_def stopAll_voices)
qed

section \<open>The master volume: claim C8\<close>

text \<open>
  C8, as the code has it. On an initialised engine, for every target, the call clamps
  the target to \<open>[0, 1]\<close>, cancels what was scheduled, holds the master gain at its
  current value and schedules a linear ramp to the clamped target ending 0.05 s later;
  nothing else changes. On an engine that is not initialised the call does nothing.
\<close>

theorem setMasterVolume_ramps_when_initialized:
  "(isInitialized e \<and> masterGain e = Some gain \<longrightarrow>
      masterGain (setMasterVolume env volume e) = Some (gain @
         [CancelScheduledValues (currentTime env),
          SetValueAtTime (masterGainValue env) (currentTime env),
          LinearRampToValueAtTime (max 0 (min 1 volume)) (currentTime env + 0.05)]) \<and>
      0 \<le> max 0 (min 1 volume) \<and> max 0 (min 1 volume) \<le> 1 \<and>
      currentVoices (setMasterVolume env volume e) = currentVoices e \<and>
      isInitialized (setMasterVolume env volume e)) \<and>
   (\<not> isInitialized e \<longrightarrow> setMasterVolume env volume e = e)"
  by (auto simp: setMasterVolume_def Let_def split: option.splits)

theorem setMasterVolume_ramps_when_initialized_witness:
  "isInitialized running_engine \<and> masterGain running_engine = Some [SetValueAtTime 0.5 0] \<and>
   masterGain (setMasterVolume (env_at 1) 1.7 running_engine) =
     Some [SetValueAtTime 0.5 0, CancelScheduledValues 1, SetValueAtTime 0.5 1,
           LinearRampToValueAtTime 1 1.05] \<and>
   \<not> isInitialized new_engine \<and>
   setMasterVolume (env_at 1) 1.7 new_engine = new_engine"
  using setMasterVolume_ramps_when_initialized
          [of running_engine "[SetValueAtTime 0.5 0]" "env_at 1" "1.7"]
        setMasterVolume_ramps_when_initialized
          [of new_engine "[]" "env_at 1" "1.7"]
  by (simp add: running_engine_def initialize_def new_engine_def env_at_def)

text \<open>
  C8, as the specification states it (for every target a ramp is scheduled), fails on
  an engine that has not been initialised, as at the mount of the component: the call
  returns at its guard, and no master gain exists to ramp.
\<close>

theorem setMasterVolume_dropped_before_initialization:
  "setMasterVolume (env_at 1) 0.8 new_engine = new_engine \<and>
   masterGain (setMasterVolume (env_at 1) 0.8 new_engine) = None \<and>
   volume_effect (env_at 1) initial_tracker new_engine = new_engine"
  by (simp add: setMasterVolume_def new_engine_def volume_effect_def)

section \<open>Responses of the harmony worker: claim C10\<close>

text \<open>
  C10. A response with fewer than four notes changes nothing: the hook (current
  harmony, sequence) and the whole session, engine included, stay as they were, so no
  chord reaches the engine. With four or more notes the first four become soprano, alto,
  tenor, bass in that order, and that chord is what the engine is asked to play.
\<close>

theorem fewer_than_four_notes_ignored:
  "(length ns < 4 \<longrightarrow> handleHarmonyReceived ns h = h \<and> on_notes_message env ns s = s) \<and>
   (4 \<le> length ns \<longrightarrow>
      currentHarmony (handleHarmonyReceived ns h) =
        Some \<lparr>hc_soprano = ns ! 0, hc_alto = ns ! 1, hc_tenor = ns ! 2, hc_bass = ns ! 3\<rparr> \<and>
      audioEngine (on_notes_message env ns s) =
        snd (playChord env (hn_midiNote (ns ! 0)) (hn_midiNote (ns ! 1))
               (hn_midiNote (ns ! 2)) (hn_midiNote (ns ! 3)) (audioEngine s)))"
  by (auto simp: handleHarmonyReceived_def on_notes_message_def playHarmony_effect_def Let_def
        split: option.splits)

theorem fewer_than_four_notes_ignored_witness:
  "length [note_of 72, note_of 67, note_of 64] < 4 \<and>
   on_notes_message (env_at 1) [note_of 72, note_of 67, note_of 64] fresh_session
     = fresh_session \<and>
   4 \<le> length [note_of 72, note_of 67, note_of 64, note_of 60, note_of 48] \<and>
   currentHarmony (handleHarmonyReceived
       [note_of 72, note_of 67, note_of 64, note_of 60, note_of 48] ready_hook) =
     Some \<lparr>hc_soprano = note_of 72, hc_alto = note_of 67, hc_tenor = note_of 64,
           hc_bass = note_of 60\<rparr> \<and>
   voice_keys (audioEngine (on_notes_message (env_at 1)
       [note_of 72, note_of 67, note_of 64, note_of 60, note_of 48] fresh_session)) = satb"
proof -
  have ok: "fst (playChord (env_at 1) 72 67 64 60 new_engine) = None"
    by (rule playChord_ok) (simp add: env_at_def)
  show ?thesis
    using fewer_than_four_notes_ignored
            [of "[note_of 72, note_of 67, note_of 64]" ready_hook "env_at 1" fresh_session]
          fewer_than_four_notes_ignored
            [of "[note_of 72, note_of 67, note_of 64, note_of 60, note_of 48]" ready_hook
                "env_at 1" fresh_session]
          playChord_success_voices[OF ok]
    by (simp add: voice_keys_def satb_def fresh_session_def note_of_def)
qed

end
